theory Spec2Isabelle
  imports Complex_Main "HOL-Library.Sublist" "HOL-Library.AList" "HOL-Library.Product_Lexorder"
begin

section \<open>JavaScript values and strings\<close>

text \<open>
  Strings are lists of characters; the letters, digits and white space of the model are
  the ASCII ones, so the functions that classify or map characters are those of
  JavaScript on strings of ASCII characters. \<open>None\<close> stands for \<^verbatim>\<open>undefined\<close> or \<^verbatim>\<open>null\<close>.
\<close>

text \<open>JavaScript truthiness of a string-or-missing and of a number-or-missing value.\<close>

definition truthy_str :: "string option \<Rightarrow> bool" where
  "truthy_str x = (case x of None \<Rightarrow> False | Some v \<Rightarrow> v \<noteq> [])"

definition truthy_num :: "int option \<Rightarrow> bool" where
  "truthy_num x = (case x of None \<Rightarrow> False | Some n \<Rightarrow> n \<noteq> 0)"

text \<open>\<^verbatim>\<open>x || null\<close>, \<^verbatim>\<open>x || d\<close> and \<^verbatim>\<open>x || ''\<close> on a string-or-missing value.\<close>

definition or_null :: "string option \<Rightarrow> string option" where
  "or_null x = (if truthy_str x then x else None)"

definition or_str :: "string option \<Rightarrow> string \<Rightarrow> string" where
  "or_str x d = (case x of None \<Rightarrow> d | Some v \<Rightarrow> if v = [] then d else v)"

definition or_empty :: "string option \<Rightarrow> string" where
  "or_empty x = (case x of None \<Rightarrow> [] | Some v \<Rightarrow> v)"

text \<open>Character classes: \<^verbatim>\<open>\s\<close>, \<^verbatim>\<open>\d\<close>, and the line terminators that \<^verbatim>\<open>.\<close> does not match.\<close>

definition is_space :: "char \<Rightarrow> bool" where
  "is_space c \<longleftrightarrow> c \<in> {CHR '' '', CHR 0x09, CHR 0x0A, CHR 0x0B, CHR 0x0C, CHR 0x0D}"

definition is_digit :: "char \<Rightarrow> bool" where
  "is_digit c \<longleftrightarrow> c \<in> set ''0123456789''"

definition is_line_terminator :: "char \<Rightarrow> bool" where
  "is_line_terminator c \<longleftrightarrow> c = CHR 0x0A \<or> c = CHR 0x0D"

definition lower_letters :: string where
  "lower_letters = ''abcdefghijklmnopqrstuvwxyz''"

definition upper_letters :: string where
  "upper_letters = ''ABCDEFGHIJKLMNOPQRSTUVWXYZ''"

definition is_lower :: "char \<Rightarrow> bool" where
  "is_lower c \<longleftrightarrow> c \<in> set lower_letters"

definition is_upper :: "char \<Rightarrow> bool" where
  "is_upper c \<longleftrightarrow> c \<in> set upper_letters"

definition upper_char :: "char \<Rightarrow> char" where
  "upper_char c = (case map_of (zip lower_letters upper_letters) c of Some u \<Rightarrow> u | None \<Rightarrow> c)"

definition lower_char :: "char \<Rightarrow> char" where
  "lower_char c = (case map_of (zip upper_letters lower_letters) c of Some l \<Rightarrow> l | None \<Rightarrow> c)"

definition toUpperCase :: "string \<Rightarrow> string" where
  "toUpperCase s = map upper_char s"

definition toLowerCase :: "string \<Rightarrow> string" where
  "toLowerCase s = map lower_char s"

text \<open>\<^verbatim>\<open>s.charAt(0)\<close>, \<^verbatim>\<open>s.trim()\<close>, \<^verbatim>\<open>s.includes(t)\<close>, \<^verbatim>\<open>s.endsWith(t)\<close>, \<^verbatim>\<open>xs.join(sep)\<close>.\<close>

definition charAt0 :: "string \<Rightarrow> string" where
  "charAt0 s = take 1 s"

definition trim :: "string \<Rightarrow> string" where
  "trim s = rev (dropWhile is_space (rev (dropWhile is_space s)))"

definition str_includes :: "string \<Rightarrow> string \<Rightarrow> bool" where
  "str_includes s t \<longleftrightarrow> sublist t s"

definition endsWith :: "string \<Rightarrow> string \<Rightarrow> bool" where
  "endsWith s t \<longleftrightarrow> length t \<le> length s \<and> drop (length s - length t) s = t"

fun join :: "string \<Rightarrow> string list \<Rightarrow> string" where
  "join sep [] = []"
| "join sep [x] = x"
| "join sep (x # y # ys) = x @ sep @ join sep (y # ys)"

text \<open>
  \<^verbatim>\<open>s.split(/\s+/)\<close>: the pieces between the maximal runs of white space; a string that
  starts or ends with white space yields an empty first or last piece.
\<close>

function split_ws :: "string \<Rightarrow> string list" where
  "split_ws s =
    (let w = takeWhile (\<lambda>c. \<not> is_space c) s; r = dropWhile (\<lambda>c. \<not> is_space c) s
     in if r = [] then [w] else w # split_ws (dropWhile is_space r))"
  by pat_completeness auto
termination
proof (relation "measure length")
  show "wf (measure length)" by simp
next
  fix s w r :: string
  assume r: "r = dropWhile (\<lambda>c. \<not> is_space c) s" and ne: "r \<noteq> []"
  from ne r have "is_space (hd r)" using hd_dropWhile [of "\<lambda>c. \<not> is_space c" s] by auto
  with ne have "length (dropWhile is_space r) < length r"
    by (cases r) (auto simp: le_imp_less_Suc length_dropWhile_le)
  also have "length r \<le> length s" using r by (simp add: length_dropWhile_le)
  finally show "(dropWhile is_space r, s) \<in> measure length" by simp
qed

declare split_ws.simps [simp del]

text \<open>
  \<^verbatim>\<open>s.replace(/[..]$/, '')\<close> removes one trailing character of the class, and
  \<^verbatim>\<open>s.replace(/[..]+$/, '')\<close> all of them.
\<close>

definition strip_one :: "(char \<Rightarrow> bool) \<Rightarrow> string \<Rightarrow> string" where
  "strip_one P s = (if s \<noteq> [] \<and> P (last s) then butlast s else s)"

definition strip_all :: "(char \<Rightarrow> bool) \<Rightarrow> string \<Rightarrow> string" where
  "strip_all P s = rev (dropWhile P (rev s))"

definition dot_or_comma :: "char \<Rightarrow> bool" where
  "dot_or_comma c \<longleftrightarrow> c = CHR ''.'' \<or> c = CHR '',''"

definition dot :: "char \<Rightarrow> bool" where
  "dot c \<longleftrightarrow> c = CHR ''.''"

subsection \<open>Plain objects used as dictionaries\<close>

text \<open>
  A plain object is an association list of its own properties, in insertion order.
  A property read \<^verbatim>\<open>obj[key]\<close> also finds the members of \<^verbatim>\<open>Object.prototype\<close>, which
  are truthy (functions, or the prototype itself for \<^verbatim>\<open>__proto__\<close>).
\<close>

definition object_prototype_keys :: "string list" where
  "object_prototype_keys =
    [''constructor'', ''__defineGetter__'', ''__defineSetter__'', ''hasOwnProperty'',
     ''__lookupGetter__'', ''__lookupSetter__'', ''isPrototypeOf'', ''propertyIsEnumerable'',
     ''toString'', ''valueOf'', ''__proto__'', ''toLocaleString'']"

datatype 'a js_lookup = Found 'a | Missing | Inherited

definition table_lookup :: "(string \<times> 'a) list \<Rightarrow> string \<Rightarrow> 'a js_lookup" where
  "table_lookup tbl k =
    (case map_of tbl k of
       Some v \<Rightarrow> Found v
     | None \<Rightarrow> if k \<in> set object_prototype_keys then Inherited else Missing)"

text \<open>
  \<^verbatim>\<open>obj[k] = v\<close> with a string \<open>v\<close>: an own property is updated in place or appended;
  the inherited setter \<^verbatim>\<open>__proto__\<close> ignores a string.
\<close>

definition assign :: "string \<Rightarrow> 'a \<Rightarrow> (string \<times> 'a) list \<Rightarrow> (string \<times> 'a) list" where
  "assign k v obj =
    (if k = ''__proto__'' \<and> map_of obj k = None then obj else AList.update k v obj)"

text \<open>
  The order of \<^verbatim>\<open>Object.keys\<close> and \<^verbatim>\<open>Object.entries\<close>: the array indices (canonical decimal
  numerals up to \<open>2\<^sup>3\<^sup>2 - 2\<close>) in ascending order, then the other keys in insertion order.
\<close>

definition digit_val :: "char \<Rightarrow> int" where
  "digit_val c = of_char c - of_char CHR ''0''"

definition index_val :: "string \<Rightarrow> int" where
  "index_val s = foldl (\<lambda>n c. 10 * n + digit_val c) 0 s"

definition is_array_index :: "string \<Rightarrow> bool" where
  "is_array_index s \<longleftrightarrow>
     s \<noteq> [] \<and> list_all is_digit s \<and> (hd s = CHR ''0'' \<longrightarrow> length s = 1) \<and>
     index_val s \<le> 4294967294"

definition js_own_entries :: "(string \<times> 'a) list \<Rightarrow> (string \<times> 'a) list" where
  "js_own_entries obj =
     sort_key (\<lambda>kv. index_val (fst kv)) (filter (\<lambda>kv. is_array_index (fst kv)) obj)
     @ filter (\<lambda>kv. \<not> is_array_index (fst kv)) obj"

section \<open>Session persistence (fast-checkout.js, FastCheckout.restoreSession)\<close>

text \<open>
  The cookie store of \<^verbatim>\<open>CookieJar\<close> is a JavaScript object from domain to an object from
  cookie name to value. It is kept as an association list in insertion order.
\<close>

type_synonym cookie_store = "(string \<times> (string \<times> string) list) list"

record fingerprint =
  sec_ch_ua :: string
  sec_ch_ua_mobile :: string
  sec_ch_ua_platform :: string
  accept_encoding :: string

text \<open>
  A log entry keeps the type and the message handed to \<^verbatim>\<open>log\<close>; the timestamp and the
  elapsed-time prefix are left out, and a number interpolated into a message stays as the
  placeholder of the source's template.
\<close>

type_synonym log_entry = "string \<times> string"

text \<open>
  The value of \<^verbatim>\<open>useH2\<close>: the constructor and \<^verbatim>\<open>request\<close> store a boolean, and
  \<^verbatim>\<open>restoreSession\<close> stores whatever the snapshot holds, which may be \<^verbatim>\<open>null\<close>.
\<close>

datatype js_flag = JNull | JBool bool

definition truthy_flag :: "js_flag \<Rightarrow> bool" where
  "truthy_flag f = (case f of JNull \<Rightarrow> False | JBool b \<Rightarrow> b)"

text \<open>
  The fields of a \<^verbatim>\<open>FastCheckout\<close> instance that \<^verbatim>\<open>serializeSession\<close> and
  \<^verbatim>\<open>restoreSession\<close> read and write. For the string fields \<open>None\<close> is JavaScript's
  \<^verbatim>\<open>null\<close>.
\<close>

record session =
  jar :: cookie_store
  ua :: string
  fingerprint :: fingerprint
  authToken :: "string option"
  paymentGatewayId :: "string option"
  checkoutToken :: "string option"
  preCheckoutUrl :: "string option"
  preShippingDone :: bool
  preShippingRateId :: "string option"
  prePaymentToken :: "string option"
  baseUrl :: "string option"
  useH2 :: js_flag
  logs :: "log_entry list"

text \<open>
  A snapshot as \<^verbatim>\<open>JSON.parse\<close> hands it to \<^verbatim>\<open>restoreSession\<close>. For the fields that are
  read with \<^verbatim>\<open>||\<close>, and for \<^verbatim>\<open>savedAt\<close>, \<open>None\<close> is a missing field or \<^verbatim>\<open>null\<close>. The field
  \<^verbatim>\<open>useH2\<close> is compared with \<^verbatim>\<open>undefined\<close>: there \<open>None\<close> is a missing field and
  \<open>Some JNull\<close> is \<^verbatim>\<open>null\<close>. \<^verbatim>\<open>savedAt\<close> is a number of milliseconds.
\<close>

record snapshot =
  s_cookies :: "cookie_store option"
  s_ua :: "string option"
  s_fingerprint :: "fingerprint option"
  s_authToken :: "string option"
  s_paymentGatewayId :: "string option"
  s_checkoutToken :: "string option"
  s_preCheckoutUrl :: "string option"
  s_preShippingDone :: "bool option"
  s_preShippingRateId :: "string option"
  s_prePaymentToken :: "string option"
  s_baseUrl :: "string option"
  s_useH2 :: "js_flag option"
  s_savedAt :: "int option"

definition log_msg :: "string \<Rightarrow> string \<Rightarrow> session \<Rightarrow> session" where
  "log_msg message type s = s\<lparr>logs := logs s @ [(type, message)]\<rparr>"

definition FOUR_HOURS :: int where
  "FOUR_HOURS = 4 * 60 * 60 * 1000"

text \<open>
  \<^verbatim>\<open>restoreSession(data)\<close>; \<open>now\<close> is the value of \<^verbatim>\<open>Date.now()\<close>. The result is the
  returned boolean and the instance after the call.
\<close>

definition restoreSession :: "int \<Rightarrow> snapshot option \<Rightarrow> session \<Rightarrow> bool \<times> session" where
  "restoreSession now data s =
    (case data of
       None \<Rightarrow> (False, s)
     | Some d \<Rightarrow>
        if truthy_num (s_savedAt d) \<and> now - the (s_savedAt d) > FOUR_HOURS
        then (False, log_msg ''Saved session expired (>4h old). Starting fresh.'' ''info'' s)
        else (True,
          log_msg ''Session restored (${age} min old). Cookies, tokens, fingerprint loaded.'' ''success''
            (s\<lparr> jar := (case s_cookies d of None \<Rightarrow> [] | Some c \<Rightarrow> c),
                ua := or_str (s_ua d) (ua s),
                fingerprint := (case s_fingerprint d of None \<Rightarrow> fingerprint s | Some f \<Rightarrow> f),
                authToken := or_null (s_authToken d),
                paymentGatewayId := or_null (s_paymentGatewayId d),
                checkoutToken := or_null (s_checkoutToken d),
                preCheckoutUrl := or_null (s_preCheckoutUrl d),
                preShippingDone := (case s_preShippingDone d of None \<Rightarrow> False | Some b \<Rightarrow> b),
                preShippingRateId := or_null (s_preShippingRateId d),
                prePaymentToken := or_null (s_prePaymentToken d),
                baseUrl := or_null (s_baseUrl d),
                useH2 := (case s_useH2 d of None \<Rightarrow> JBool True | Some v \<Rightarrow> v) \<rparr>)))"

text \<open>The session fields a snapshot carries: everything but the log.\<close>

definition same_fields :: "session \<Rightarrow> session \<Rightarrow> bool" where
  "same_fields a b \<longleftrightarrow> a\<lparr>logs := []\<rparr> = b\<lparr>logs := []\<rparr>"

text \<open>
  What loading a snapshot means, field by field and in terms of the snapshot's own
  values: the session holds the snapshot's cookie store (an empty one if there is none);
  the user agent and the fingerprint of the snapshot, or its own when the snapshot has
  none or an empty one; for each token and URL the snapshot's non-empty string, and
  \<^verbatim>\<open>null\<close> otherwise; the pre-shipping flag of the snapshot, false if it has none; and
  the snapshot's \<^verbatim>\<open>useH2\<close> value, true if the field is missing.
\<close>

definition loaded :: "snapshot \<Rightarrow> session \<Rightarrow> session \<Rightarrow> bool" where
  "loaded d s s' \<longleftrightarrow>
     (\<forall>c. s_cookies d = Some c \<longrightarrow> jar s' = c) \<and>
     (s_cookies d = None \<longrightarrow> jar s' = []) \<and>
     (\<forall>v. s_ua d = Some v \<and> v \<noteq> [] \<longrightarrow> ua s' = v) \<and>
     (s_ua d = None \<or> s_ua d = Some [] \<longrightarrow> ua s' = ua s) \<and>
     (\<forall>f. s_fingerprint d = Some f \<longrightarrow> fingerprint s' = f) \<and>
     (s_fingerprint d = None \<longrightarrow> fingerprint s' = fingerprint s) \<and>
     (\<forall>v. s_authToken d = Some v \<and> v \<noteq> [] \<longrightarrow> authToken s' = Some v) \<and>
     (s_authToken d = None \<or> s_authToken d = Some [] \<longrightarrow> authToken s' = None) \<and>
     (\<forall>v. s_paymentGatewayId d = Some v \<and> v \<noteq> [] \<longrightarrow> paymentGatewayId s' = Some v) \<and>
     (s_paymentGatewayId d = None \<or> s_paymentGatewayId d = Some [] \<longrightarrow> paymentGatewayId s' = None) \<and>
     (\<forall>v. s_checkoutToken d = Some v \<and> v \<noteq> [] \<longrightarrow> checkoutToken s' = Some v) \<and>
     (s_checkoutToken d = None \<or> s_checkoutToken d = Some [] \<longrightarrow> checkoutToken s' = None) \<and>
     (\<forall>v. s_preCheckoutUrl d = Some v \<and> v \<noteq> [] \<longrightarrow> preCheckoutUrl s' = Some v) \<and>
     (s_preCheckoutUrl d = None \<or> s_preCheckoutUrl d = Some [] \<longrightarrow> preCheckoutUrl s' = None) \<and>
     (\<forall>b. s_preShippingDone d = Some b \<longrightarrow> preShippingDone s' = b) \<and>
     (s_preShippingDone d = None \<longrightarrow> preShippingDone s' = False) \<and>
     (\<forall>v. s_preShippingRateId d = Some v \<and> v \<noteq> [] \<longrightarrow> preShippingRateId s' = Some v) \<and>
     (s_preShippingRateId d = None \<or> s_preShippingRateId d = Some [] \<longrightarrow> preShippingRateId s' = None) \<and>
     (\<forall>v. s_prePaymentToken d = Some v \<and> v \<noteq> [] \<longrightarrow> prePaymentToken s' = Some v) \<and>
     (s_prePaymentToken d = None \<or> s_prePaymentToken d = Some [] \<longrightarrow> prePaymentToken s' = None) \<and>
     (\<forall>v. s_baseUrl d = Some v \<and> v \<noteq> [] \<longrightarrow> baseUrl s' = Some v) \<and>
     (s_baseUrl d = None \<or> s_baseUrl d = Some [] \<longrightarrow> baseUrl s' = None) \<and>
     (\<forall>f. s_useH2 d = Some f \<longrightarrow> useH2 s' = f) \<and>
     (s_useH2 d = None \<longrightarrow> useH2 s' = JBool True)"

text \<open>A freshly constructed instance, and a snapshot saved at the epoch, for the examples.\<close>

definition fresh_session :: session where
  "fresh_session =
    \<lparr> jar = [], ua = ''Mozilla/5.0'',
      fingerprint = \<lparr> sec_ch_ua = ''Chromium'', sec_ch_ua_mobile = ''?0'',
                      sec_ch_ua_platform = ''Linux'', accept_encoding = ''gzip'' \<rparr>,
      authToken = None, paymentGatewayId = None, checkoutToken = None,
      preCheckoutUrl = None, preShippingDone = False, preShippingRateId = None,
      prePaymentToken = None, baseUrl = None, useH2 = JBool True, logs = [] \<rparr>"

definition warm_snapshot :: "int option \<Rightarrow> snapshot" where
  "warm_snapshot t =
    \<lparr> s_cookies = Some [(''shop.example'', [(''cart'', ''abc'')])],
      s_ua = Some ''Mozilla/5.0 (X11)'', s_fingerprint = None,
      s_authToken = Some ''tok-0123456789'', s_paymentGatewayId = Some ''42'',
      s_checkoutToken = None, s_preCheckoutUrl = None, s_preShippingDone = Some True,
      s_preShippingRateId = None, s_prePaymentToken = None,
      s_baseUrl = Some ''https://shop.example'', s_useH2 = Some (JBool False), s_savedAt = t \<rparr>"

section \<open>The domain-scoped cookie jar\<close>

text \<open>
  \<^verbatim>\<open>CookieJar\<close> of \<^verbatim>\<open>fast-checkout.js\<close>. The store is an object whose keys are host names and
  whose values are objects from cookie names to cookie values. The functions below take
  the host name \<^verbatim>\<open>new URL(url).hostname\<close> of the URL they are called with.
\<close>

datatype set_cookie_arg = Absent | Single string | Multiple "string list"

text \<open>
  One iteration of the loop of \<^verbatim>\<open>update\<close>: the header up to its first \<^verbatim>\<open>;\<close>, split at its
  first \<^verbatim>\<open>=\<close>; a header without \<^verbatim>\<open>=\<close>, or with nothing before it, is skipped.
\<close>

definition parse_cookie :: "string \<Rightarrow> (string \<times> string) option" where
  "parse_cookie raw =
    (let parts = takeWhile (\<lambda>c. c \<noteq> CHR '';'') raw;
         eq = length (takeWhile (\<lambda>c. c \<noteq> CHR ''='') parts)
     in if CHR ''='' \<notin> set parts \<or> eq < 1 then None
        else Some (trim (take eq parts), drop (eq + 1) parts))"

definition set_cookie :: "(string \<times> string) list \<Rightarrow> string \<Rightarrow> (string \<times> string) list" where
  "set_cookie c raw = (case parse_cookie raw of None \<Rightarrow> c | Some (name, v) \<Rightarrow> assign name v c)"

text \<open>
  \<^verbatim>\<open>update\<close>: a missing or empty header argument returns at once. When the host name is a
  member of \<^verbatim>\<open>Object.prototype\<close> and not an own key, \<^verbatim>\<open>this.store[domain]\<close> is truthy, no
  cookie object is created and the store keeps its own properties.
\<close>

definition CookieJar_update :: "string \<Rightarrow> set_cookie_arg \<Rightarrow> cookie_store \<Rightarrow> cookie_store" where
  "CookieJar_update domain setCookieHeaders store =
    (if setCookieHeaders = Absent \<or> setCookieHeaders = Single [] then store
     else
       let arr = (case setCookieHeaders of Multiple hs \<Rightarrow> hs | Single h \<Rightarrow> [h] | Absent \<Rightarrow> [])
       in case map_of store domain of
            Some c \<Rightarrow> AList.update domain (foldl set_cookie c arr) store
          | None \<Rightarrow>
              if domain \<in> set object_prototype_keys then store
              else AList.update domain (foldl set_cookie [] arr) store)"

definition domain_match :: "string \<Rightarrow> string \<Rightarrow> bool" where
  "domain_match domain d \<longleftrightarrow>
     domain = d \<or> endsWith domain (''.'' @ d) \<or> endsWith d (''.'' @ domain)"

definition cookies_for :: "string \<Rightarrow> cookie_store \<Rightarrow> string list" where
  "cookies_for domain store =
     concat (map (\<lambda>dc. if domain_match domain (fst dc)
                        then map (\<lambda>kv. fst kv @ ''='' @ snd kv) (js_own_entries (snd dc))
                        else [])
                 (js_own_entries store))"

definition CookieJar_get :: "string \<Rightarrow> cookie_store \<Rightarrow> string" where
  "CookieJar_get domain store = join ''; '' (cookies_for domain store)"

definition CookieJar_clear :: "cookie_store \<Rightarrow> cookie_store" where
  "CookieJar_clear store = []"

text \<open>The value that the last header naming \<open>n\<close> gives it, if any header names it.\<close>

fun last_value :: "string list \<Rightarrow> string \<Rightarrow> string option" where
  "last_value [] n = None"
| "last_value (h # hs) n =
     (case last_value hs n of
        Some v \<Rightarrow> Some v
      | None \<Rightarrow> (case parse_cookie h of
                   Some (n', v) \<Rightarrow> if n' = n then Some v else None
                 | None \<Rightarrow> None))"

section \<open>Proxy rotation\<close>

text \<open>
  \<^verbatim>\<open>SmartProxyManager\<close> of \<^verbatim>\<open>http-engine.js\<close>. The pool is the array \<^verbatim>\<open>this.proxies\<close>; every
  function takes the pool and returns the updated pool. \<^verbatim>\<open>Date.now()\<close> is the argument \<open>now\<close>
  (milliseconds), latencies are real numbers.
\<close>

record proxy =
  url :: string
  index :: nat
  bans :: nat
  lastBan :: int
  requests :: nat
  avgLatency :: real
  alive :: bool

definition SmartProxyManager :: "string list \<Rightarrow> proxy list" where
  "SmartProxyManager proxyList =
     map (\<lambda>(i, p). \<lparr> url = (if str_includes p ''://'' then p else ''http://'' @ p), index = i,
                      bans = 0, lastBan = 0, requests = 0, avgLatency = 0, alive = True \<rparr>)
         (enumerate 0 proxyList)"

definition available :: "int \<Rightarrow> proxy \<Rightarrow> bool" where
  "available now p \<longleftrightarrow> alive p \<and> now - lastBan p > 30000"

text \<open>
  \<^verbatim>\<open>getNext\<close> returns the chosen entry with its position in the pool, or \<open>None\<close> for \<^verbatim>\<open>null\<close>.
  \<^verbatim>\<open>Array.prototype.sort\<close> is stable, so the chosen entry is the first one of the filtered
  list with the least pair (bans, average latency).
\<close>

definition getNext :: "int \<Rightarrow> proxy list \<Rightarrow> (nat \<times> proxy) option \<times> proxy list" where
  "getNext now proxies =
    (if proxies = [] then (None, proxies)
     else
       let aliveList = filter (\<lambda>ip. available now (snd ip)) (enumerate 0 proxies)
       in if aliveList = [] then
            (let reset = map (\<lambda>p. p\<lparr>alive := True, bans := 0\<rparr>) proxies
             in (Some (0, hd reset), reset))
          else
            (let ip = hd (sort_key (\<lambda>ip. (bans (snd ip), avgLatency (snd ip))) aliveList);
                 proxy = (snd ip)\<lparr>requests := requests (snd ip) + 1\<rparr>
             in (Some (fst ip, proxy), proxies[fst ip := proxy])))"

text \<open>\<^verbatim>\<open>this.proxies.find(p => p.url === proxyUrl)\<close>: the position of the first entry with that URL.\<close>

definition find_pos :: "string \<Rightarrow> proxy list \<Rightarrow> nat option" where
  "find_pos proxyUrl proxies =
     (if \<exists>p \<in> set proxies. url p = proxyUrl
      then Some (length (takeWhile (\<lambda>p. url p \<noteq> proxyUrl) proxies)) else None)"

definition reportBan :: "int \<Rightarrow> string \<Rightarrow> proxy list \<Rightarrow> proxy list" where
  "reportBan now proxyUrl proxies =
    (case find_pos proxyUrl proxies of
       None \<Rightarrow> proxies
     | Some i \<Rightarrow>
        let p = proxies ! i;
            p1 = p\<lparr>bans := bans p + 1, lastBan := now\<rparr>;
            p2 = (if bans p1 \<ge> 3 then p1\<lparr>alive := False\<rparr> else p1)
        in proxies[i := p2])"

text \<open>
  \<^verbatim>\<open>reportSuccess\<close> computes in double precision: \<open>rnd\<close> is the rounding of a real number to
  a double, applied to the two constants and to the result of each operation. The
  statements below hold for every function \<open>rnd\<close>.
\<close>

definition reportSuccess ::
  "(real \<Rightarrow> real) \<Rightarrow> string \<Rightarrow> real \<Rightarrow> proxy list \<Rightarrow> proxy list" where
  "reportSuccess rnd proxyUrl latencyMs proxies =
    (case find_pos proxyUrl proxies of
       None \<Rightarrow> proxies
     | Some i \<Rightarrow>
        let p = proxies ! i
        in proxies[i := p\<lparr>avgLatency :=
             (if avgLatency p = 0 then latencyMs
              else rnd (rnd (avgLatency p * rnd 0.7) + rnd (latencyMs * rnd 0.3)))\<rparr>])"

text \<open>
  A history of calls on one pool. \<open>run_ops rnd u\<close> replays a history and counts the calls
  of \<^verbatim>\<open>reportBan\<close> for the URL \<open>u\<close> since the pool was last reset by \<^verbatim>\<open>getNext\<close>.
\<close>

datatype pool_op = Next int | Ban int string | Success string real

fun apply_op :: "(real \<Rightarrow> real) \<Rightarrow> proxy list \<Rightarrow> pool_op \<Rightarrow> proxy list" where
  "apply_op rnd ps (Next now) = snd (getNext now ps)"
| "apply_op rnd ps (Ban now u) = reportBan now u ps"
| "apply_op rnd ps (Success u ms) = reportSuccess rnd u ms ps"

definition pool_dark :: "int \<Rightarrow> proxy list \<Rightarrow> bool" where
  "pool_dark now ps \<longleftrightarrow> ps \<noteq> [] \<and> (\<forall>q \<in> set ps. \<not> available now q)"

fun count_op :: "string \<Rightarrow> proxy list \<Rightarrow> nat \<Rightarrow> pool_op \<Rightarrow> nat" where
  "count_op u ps n (Next now) = (if pool_dark now ps then 0 else n)"
| "count_op u ps n (Ban now u') = (if u' = u then n + 1 else n)"
| "count_op u ps n (Success u' ms) = n"

fun run_ops ::
  "(real \<Rightarrow> real) \<Rightarrow> string \<Rightarrow> proxy list \<times> nat \<Rightarrow> pool_op list \<Rightarrow> proxy list \<times> nat" where
  "run_ops rnd u (ps, n) [] = (ps, n)"
| "run_ops rnd u (ps, n) (op # ops) =
     run_ops rnd u (apply_op rnd ps op, count_op u ps n op) ops"

text \<open>The number of all calls of \<^verbatim>\<open>reportBan\<close> for the URL \<open>u\<close> in a history.\<close>

fun is_ban_of :: "string \<Rightarrow> pool_op \<Rightarrow> bool" where
  "is_ban_of u (Ban now u') = (u' = u)"
| "is_ban_of u (Next now) = False"
| "is_ban_of u (Success u' ms) = False"

definition count_bans :: "string \<Rightarrow> pool_op list \<Rightarrow> nat" where
  "count_bans u ops = length (filter (is_ban_of u) ops)"

definition struck :: "nat \<Rightarrow> nat \<Rightarrow> proxy list \<Rightarrow> bool" where
  "struck i n ps \<longleftrightarrow> i < length ps \<and> n \<le> bans (ps ! i) \<and> (3 \<le> n \<longrightarrow> \<not> alive (ps ! i))"

definition example_pool :: "proxy list" where
  "example_pool = SmartProxyManager [''a:1'', ''http://b:2'']"

definition example_ops :: "pool_op list" where
  "example_ops = [Ban 1793611201000 ''http://a:1'', Ban 1793611202000 ''http://a:1'',
                  Next 1793611203000, Success ''http://b:2'' 120,
                  Ban 1793611204000 ''http://a:1'']"

definition example_struck :: "proxy list" where
  "example_struck =
    [\<lparr>url = ''http://a:1'', index = 0, bans = 3, lastBan = 1793611204000, requests = 0,
       avgLatency = 0, alive = False\<rparr>,
     \<lparr>url = ''http://b:2'', index = 1, bans = 0, lastBan = 0, requests = 1,
       avgLatency = 120, alive = True\<rparr>]"

text \<open>
  A history in which the first proxy is banned three times, the second once, and the pool
  is then reset by \<^verbatim>\<open>getNext\<close>; and the pool it leaves.
\<close>

definition reset_ops :: "pool_op list" where
  "reset_ops = [Ban 1793611201000 ''http://a:1'', Ban 1793611202000 ''http://a:1'',
                Ban 1793611203000 ''http://a:1'', Ban 1793611204000 ''http://b:2'',
                Next 1793611205000]"

definition reset_pool :: "proxy list" where
  "reset_pool =
    [\<lparr>url = ''http://a:1'', index = 0, bans = 0, lastBan = 1793611203000, requests = 0,
       avgLatency = 0, alive = True\<rparr>,
     \<lparr>url = ''http://b:2'', index = 1, bans = 0, lastBan = 1793611204000, requests = 0,
       avgLatency = 0, alive = True\<rparr>]"

text \<open>A pool in which two entries have the same URL.\<close>

definition twin_pool :: "proxy list" where
  "twin_pool = SmartProxyManager [''a:1'', ''a:1'', ''b:2'']"

section \<open>Address jigging\<close>

text \<open>
  \<^verbatim>\<open>AddressJigger\<close> (required by \<^verbatim>\<open>fleet-runner.js\<close>) and \<^verbatim>\<open>FastCheckout.jigAddress\<close>. The
  lookup tables are plain objects, so a word of the address that names a member of
  \<^verbatim>\<open>Object.prototype\<close> is found in them. A thrown TypeError is the value \<open>Inl\<close>.
\<close>

definition STREET_TYPES :: "(string \<times> string list) list" where
  "STREET_TYPES =
   [(''street'', [''street'', ''st'', ''st.'', ''str'']),
    (''st'', [''street'', ''st'', ''st.'', ''str'']),
    (''st.'', [''street'', ''st'', ''st.'', ''str'']),
    (''road'', [''road'', ''rd'', ''rd.'']),
    (''rd'', [''road'', ''rd'', ''rd.'']),
    (''rd.'', [''road'', ''rd'', ''rd.'']),
    (''avenue'', [''avenue'', ''ave'', ''ave.'', ''av'']),
    (''ave'', [''avenue'', ''ave'', ''ave.'', ''av'']),
    (''ave.'', [''avenue'', ''ave'', ''ave.'', ''av'']),
    (''drive'', [''drive'', ''dr'', ''dr.'']),
    (''dr'', [''drive'', ''dr'', ''dr.'']),
    (''lane'', [''lane'', ''ln'', ''ln.'']),
    (''ln'', [''lane'', ''ln'', ''ln.'']),
    (''close'', [''close'', ''cl'', ''cl.'']),
    (''cl'', [''close'', ''cl'', ''cl.'']),
    (''court'', [''court'', ''ct'', ''ct.'']),
    (''ct'', [''court'', ''ct'', ''ct.'']),
    (''place'', [''place'', ''pl'', ''pl.'']),
    (''pl'', [''place'', ''pl'', ''pl.'']),
    (''terrace'', [''terrace'', ''terr'', ''ter'']),
    (''crescent'', [''crescent'', ''cres'', ''cr'']),
    (''gardens'', [''gardens'', ''gdns'', ''gdn'']),
    (''grove'', [''grove'', ''gr'', ''grv'']),
    (''way'', [''way'', ''wy'']),
    (''park'', [''park'', ''pk'']),
    (''hill'', [''hill'', ''hl'']),
    (''square'', [''square'', ''sq'', ''sq.'']),
    (''boulevard'', [''boulevard'', ''blvd'', ''blvd.''])]"

definition UNIT_PREFIXES :: "(string \<times> string list) list" where
  "UNIT_PREFIXES =
   [(''flat'', [''flat'', ''fl'', ''flt'', ''unit'', ''apt'']),
    (''fl'', [''flat'', ''fl'', ''flt'', ''unit'', ''apt'']),
    (''flt'', [''flat'', ''fl'', ''flt'', ''unit'', ''apt'']),
    (''unit'', [''unit'', ''flat'', ''fl'', ''apt'']),
    (''apt'', [''apt'', ''apt.'', ''apartment'', ''flat'', ''unit'']),
    (''apartment'', [''apartment'', ''apt'', ''apt.'', ''flat'', ''unit''])]"

definition DIRECTIONS :: "(string \<times> string list) list" where
  "DIRECTIONS =
   [(''north'', [''north'', ''n'', ''n.'']),
    (''n'', [''north'', ''n'', ''n.'']),
    (''south'', [''south'', ''s'', ''s.'']),
    (''s'', [''south'', ''s'', ''s.'']),
    (''east'', [''east'', ''e'', ''e.'']),
    (''e'', [''east'', ''e'', ''e.'']),
    (''west'', [''west'', ''w'', ''w.'']),
    (''w'', [''west'', ''w'', ''w.''])]"

text \<open>\<^verbatim>\<open>pick.charAt(0).toUpperCase() + pick.slice(1)\<close>\<close>

definition capitalize :: "string \<Rightarrow> string" where
  "capitalize pick = toUpperCase (charAt0 pick) @ drop 1 pick"

text \<open>
  \<^verbatim>\<open>words[i][0] === words[i][0].toUpperCase()\<close>: the first character is not a lower-case
  letter. (An empty word is never looked up successfully.)
\<close>

definition starts_upper :: "string \<Rightarrow> bool" where
  "starts_upper w \<longleftrightarrow> charAt0 w = toUpperCase (charAt0 w)"

text \<open>
  The match of \<^verbatim>\<open>/^(\d+)\s+(.+)/\<close>: the digits, and the longest run of characters
  other than line terminators that follows at least one white-space character.
\<close>

definition match_street_number :: "string \<Rightarrow> (string \<times> string) option" where
  "match_street_number s =
    (let num = takeWhile is_digit s;
         t = drop (length num) s;
         n = length (takeWhile is_space t);
         js = filter (\<lambda>j. j < length t \<and> \<not> is_line_terminator (t ! j)) (rev [1..<n + 1])
     in if num = [] \<or> js = [] then None
        else Some (num, takeWhile (\<lambda>c. \<not> is_line_terminator c) (drop (hd js) t)))"

text \<open>
  A table lookup followed by the choice of a variant, as both halves of the loop body of
  \<^verbatim>\<open>_jigStreetAddress\<close> do it: \<^verbatim>\<open>if (TABLE[key]) { const variants = TABLE[key]; const
  pick = variants[k % variants.length]; ... }\<close>. A key that names a member of
  \<^verbatim>\<open>Object.prototype\<close> finds that member, whose indexing gives \<^verbatim>\<open>undefined\<close>, and the
  use of \<^verbatim>\<open>pick\<close> throws a TypeError.
\<close>

definition pick_variant ::
  "(string \<times> string list) list \<Rightarrow> nat \<Rightarrow> string \<Rightarrow> string \<Rightarrow> string + string" where
  "pick_variant tbl k key word =
    (case table_lookup tbl key of
       Missing \<Rightarrow> Inr word
     | Inherited \<Rightarrow> Inl ''TypeError''
     | Found variants \<Rightarrow>
         (let pick = variants ! (k mod length variants)
          in Inr (if starts_upper word then capitalize pick else pick)))"

text \<open>One iteration of the loop over \<^verbatim>\<open>words\<close> in \<^verbatim>\<open>_jigStreetAddress\<close>.\<close>

definition jig_word :: "nat \<Rightarrow> nat \<Rightarrow> string \<Rightarrow> string + string" where
  "jig_word seed i word =
    (case pick_variant STREET_TYPES (seed + i) (strip_one dot_or_comma (toLowerCase word)) word of
       Inl e \<Rightarrow> Inl e
     | Inr word1 \<Rightarrow>
         pick_variant DIRECTIONS (seed + i + 1) (strip_one dot (toLowerCase word1)) word1)"

fun jig_words :: "nat \<Rightarrow> nat \<Rightarrow> string list \<Rightarrow> string + string list" where
  "jig_words seed i [] = Inr []"
| "jig_words seed i (w # ws) =
     (case jig_word seed i w of
        Inl e \<Rightarrow> Inl e
      | Inr w' \<Rightarrow> (case jig_words seed (i + 1) ws of Inl e \<Rightarrow> Inl e | Inr ws' \<Rightarrow> Inr (w' # ws')))"

text \<open>The street number: \<^verbatim>\<open>numVariants[seed % numVariants.length] + " " + rest\<close>.\<close>

definition street_number_variation :: "nat \<Rightarrow> string \<Rightarrow> string" where
  "street_number_variation seed addr =
    (case match_street_number addr of
       None \<Rightarrow> addr
     | Some (num, rest) \<Rightarrow>
         (let numVariants = [num, num @ ''.'', ''0'' @ num, ''#'' @ num]
          in numVariants ! (seed mod length numVariants) @ '' '' @ rest))"

text \<open>Case variation (every 5th bot).\<close>

definition case_variation :: "nat \<Rightarrow> string \<Rightarrow> string" where
  "case_variation seed result =
    (if seed mod 5 = 1 then toUpperCase result
     else if seed mod 5 = 2 then toLowerCase result else result)"

text \<open>Trailing punctuation.\<close>

definition trailing_punctuation :: "nat \<Rightarrow> string \<Rightarrow> string" where
  "trailing_punctuation seed result =
    (if seed mod 3 = 1 \<and> \<not> endsWith result ''.'' then result @ ''.''
     else if seed mod 3 = 2 then strip_all dot_or_comma result
     else result)"

definition jigStreetAddress :: "string \<Rightarrow> nat \<Rightarrow> string + string" where
  "jigStreetAddress addr seed =
    (if addr = [] then Inr addr
     else
       case jig_words seed 0 (split_ws (street_number_variation seed addr)) of
         Inl e \<Rightarrow> Inl e
       | Inr words \<Rightarrow>
           Inr (trailing_punctuation seed (case_variation seed (join '' '' words))))"

text \<open>
  \<^verbatim>\<open>result.replace(/(\D)\s+(\d)/, '$1$2')\<close>: at the leftmost non-digit that is followed by
  white space and then a digit, the white space is removed.
\<close>

fun close_gap :: "string \<Rightarrow> string" where
  "close_gap [] = []"
| "close_gap (c # cs) =
     (let sp = takeWhile is_space cs; r = dropWhile is_space cs
      in if \<not> is_digit c \<and> sp \<noteq> [] \<and> r \<noteq> [] \<and> is_digit (hd r) then c # r
         else c # close_gap cs)"

text \<open>
  \<^verbatim>\<open>result.replace(/(\D)(\d)/, '$1 $2')\<close>: a space is put after the leftmost non-digit that
  is followed by a digit.
\<close>

fun open_gap :: "string \<Rightarrow> string" where
  "open_gap [] = []"
| "open_gap [c] = [c]"
| "open_gap (c # d # cs) =
     (if \<not> is_digit c \<and> is_digit d then c # CHR '' '' # d # cs else c # open_gap (d # cs))"

text \<open>Spacing variation: "Flat 4B" vs "Flat4B".\<close>

definition spacing_variation :: "nat \<Rightarrow> string \<Rightarrow> string" where
  "spacing_variation seed result =
    (let result1 = (if seed mod 4 = 1 then close_gap result else result)
     in if seed mod 4 = 2 then open_gap result1 else result1)"

definition line2_case :: "nat \<Rightarrow> string \<Rightarrow> string" where
  "line2_case seed result =
    (if seed mod 6 = 3 then toUpperCase result
     else if seed mod 6 = 4 then toLowerCase result else result)"

text \<open>
  The unit prefix: \<^verbatim>\<open>words[0] = pick.charAt(0).toUpperCase() + pick.slice(1)\<close>, whatever the
  case of the word was.
\<close>

definition unit_prefix :: "nat \<Rightarrow> string list \<Rightarrow> string + string list" where
  "unit_prefix seed words =
    (case table_lookup UNIT_PREFIXES (strip_one dot_or_comma (toLowerCase (hd words))) of
       Missing \<Rightarrow> Inr words
     | Inherited \<Rightarrow> Inl ''TypeError''
     | Found variants \<Rightarrow> Inr (capitalize (variants ! (seed mod length variants)) # tl words))"

definition jigAddressLine2 :: "string \<Rightarrow> string \<Rightarrow> nat \<Rightarrow> string + string" where
  "jigAddressLine2 addr2 addr1 seed =
    (if addr2 = [] then
       (let fillers = [[], ''.'', '','', ''-''] in Inr (fillers ! (seed mod length fillers)))
     else
       case unit_prefix seed (split_ws addr2) of
         Inl e \<Rightarrow> Inl e
       | Inr words \<Rightarrow> Inr (line2_case seed (spacing_variation seed (join '' '' words))))"

definition normalized :: "string \<Rightarrow> string" where
  "normalized name = toUpperCase (charAt0 name) @ toLowerCase (drop 1 name)"

text \<open>The \<^verbatim>\<open>variants\<close> arrays of the field jiggers.\<close>

definition firstName_variants :: "string \<Rightarrow> string list" where
  "firstName_variants name =
    [name, toUpperCase (charAt0 name) @ ''.'', toUpperCase (charAt0 name),
     toUpperCase name, toLowerCase name, normalized name]"

definition jigFirstName :: "string \<Rightarrow> nat \<Rightarrow> string" where
  "jigFirstName name seed =
    (if name = [] then name
     else let variants = firstName_variants name in variants ! (seed mod length variants))"

definition lastName_variants :: "string \<Rightarrow> string list" where
  "lastName_variants name = [name, toUpperCase name, toLowerCase name, normalized name]"

definition jigLastName :: "string \<Rightarrow> nat \<Rightarrow> string" where
  "jigLastName name seed =
    (if name = [] then name
     else let variants = lastName_variants name in variants ! (seed mod length variants))"

definition postcode_variants :: "string \<Rightarrow> string list" where
  "postcode_variants zipcode =
    (let clean = toUpperCase (filter (\<lambda>c. \<not> is_space c) zipcode)
     in [zipcode, clean,
         (if length clean > 3
          then take (length clean - 3) clean @ '' '' @ drop (length clean - 3) clean
          else clean),
         toLowerCase zipcode, toLowerCase clean])"

definition jigPostcode :: "string \<Rightarrow> nat \<Rightarrow> string" where
  "jigPostcode zipcode seed =
    (if zipcode = [] then zipcode
     else let variants = postcode_variants zipcode in variants ! (seed mod length variants))"

definition city_variants :: "string \<Rightarrow> string list" where
  "city_variants city = [city, toUpperCase city, toLowerCase city, normalized city]"

definition jigCity :: "string \<Rightarrow> nat \<Rightarrow> string" where
  "jigCity city seed =
    (if city = [] then city
     else let variants = city_variants city in variants ! (seed mod length variants))"

text \<open>\<^verbatim>\<open>s.slice(-a, -b)\<close> and \<^verbatim>\<open>s.slice(-a)\<close> (\<open>b = 0\<close>) for \<open>b \<le> a \<le> length s\<close>.\<close>

definition slice_end :: "nat \<Rightarrow> nat \<Rightarrow> string \<Rightarrow> string" where
  "slice_end a b s = take (a - b) (drop (length s - a) s)"

definition phone_variants :: "string \<Rightarrow> string \<Rightarrow> string list" where
  "phone_variants phone digits =
    [phone, digits,
     (if take 2 digits = ''44'' then ''0'' @ drop 2 digits else digits),
     ''+44 '' @ slice_end 10 7 digits @ '' '' @ slice_end 7 4 digits @ '' '' @ slice_end 4 0 digits,
     ''0'' @ slice_end 10 6 digits @ '' '' @ slice_end 6 0 digits,
     ''(0'' @ slice_end 10 7 digits @ '') '' @ slice_end 7 0 digits]"

definition jigPhone :: "string \<Rightarrow> nat \<Rightarrow> string" where
  "jigPhone phone seed =
    (if phone = [] then phone
     else
       let digits = filter is_digit phone
       in if length digits < 10 then phone
          else let variants = phone_variants phone digits
               in variants ! (seed mod length variants))"

record checkout_details =
  firstName :: "string option"
  lastName :: "string option"
  address :: "string option"
  address2 :: "string option"
  city :: "string option"
  county :: "string option"
  state :: "string option"
  zipcode :: "string option"
  country :: "string option"
  phone :: "string option"
  email :: "string option"

text \<open>
  \<^verbatim>\<open>AddressJigger.jig\<close>. A missing field is read as the empty string (\<^verbatim>\<open>address.x || ''\<close>); the
  fields that are not jigged are copied by the spread.
\<close>

definition jig :: "checkout_details \<Rightarrow> nat \<Rightarrow> string + checkout_details" where
  "jig a idx =
    (if idx = 0 then Inr a
     else
       let seed = idx in
       case jigStreetAddress (or_empty (address a)) seed of
         Inl e \<Rightarrow> Inl e
       | Inr street \<Rightarrow>
          (case jigAddressLine2 (or_empty (address2 a)) (or_empty (address a)) seed of
             Inl e \<Rightarrow> Inl e
           | Inr line2 \<Rightarrow>
               Inr (a\<lparr> address := Some street,
                       address2 := Some line2,
                       firstName := Some (jigFirstName (or_empty (firstName a)) seed),
                       lastName := Some (jigLastName (or_empty (lastName a)) seed),
                       zipcode := Some (jigPostcode (or_empty (zipcode a)) seed),
                       city := Some (jigCity (or_empty (city a)) seed),
                       phone := Some (jigPhone (or_empty (phone a)) seed) \<rparr>)))"




definition has_body :: "string \<Rightarrow> bool" where
  "has_body s \<longleftrightarrow> (\<exists>c \<in> set s. \<not> dot_or_comma c)"









text \<open>An address for the examples, and the same address with a blank postcode.\<close>

definition small :: checkout_details where
  "small = \<lparr> firstName = Some ''Al'', lastName = Some ''Ng'',
            address = Some ''5 Elm Rd'', address2 = None,
            city = Some ''Ely'', county = None, state = None, zipcode = Some ''N1'',
            country = Some ''GB'', phone = None, email = Some ''a@b.c'' \<rparr>"


section \<open>Requests and transports\<close>

text \<open>
  \<^verbatim>\<open>FastCheckout.request\<close> of \<^verbatim>\<open>fast-checkout.js\<close> and \<^verbatim>\<open>HttpEngine.request\<close> of
  \<^verbatim>\<open>http-engine.js\<close>. A request is tried over one of three transports: the HTTP/2 session
  of the engine, the engine's HTTP/1.1 client (undici), or node-fetch (HTTP/1.1).
\<close>

datatype transport = H2 | Undici | NodeFetch

text \<open>
  The body of a request. A body built with \<^verbatim>\<open>URLSearchParams\<close> is kept as the list of its
  fields, in the order of the \<^verbatim>\<open>append\<close> calls.
\<close>

datatype body = NoBody | Raw string | Form "(string \<times> string) list"

record request =
  req_method :: string
  req_url :: string
  req_body :: body
  req_cookie :: string

text \<open>
  A response: the status, the \<^verbatim>\<open>location\<close> header, the \<^verbatim>\<open>set-cookie\<close> headers (\<open>None\<close> when
  there is none) and the text of the body.
\<close>

record response =
  res_status :: nat
  res_location :: "string option"
  res_set_cookie :: "string list option"
  res_body :: string

definition res_ok :: "response \<Rightarrow> bool" where
  "res_ok res \<longleftrightarrow> 200 \<le> res_status res \<and> res_status res < 300"

text \<open>
  What the network does with one attempt: it fails with a message or it replies. The
  network is a function of the number of attempts made so far, the transport and the
  request; the statements below hold for every such function.
\<close>

datatype outcome = Fails string | Replies response

datatype event = Tried transport request


fun request_of :: "event \<Rightarrow> request" where
  "request_of (Tried t r) = r"

text \<open>
  The state of a run: the \<^verbatim>\<open>FastCheckout\<close> instance (its session fields and
  \<^verbatim>\<open>proxyAgent\<close>, which is set or not), the network, and the trace of all attempts made.
\<close>

record world =
  sess :: session
  proxyAgent :: bool
  net :: "nat \<Rightarrow> transport \<Rightarrow> request \<Rightarrow> outcome"
  calls :: nat
  trace :: "event list"

definition send :: "transport \<Rightarrow> request \<Rightarrow> world \<Rightarrow> outcome \<times> world" where
  "send t r w =
     (net w (calls w) t r, w\<lparr>calls := calls w + 1, trace := trace w @ [Tried t r]\<rparr>)"

definition log_w :: "string \<Rightarrow> string \<Rightarrow> world \<Rightarrow> world" where
  "log_w message type w = w\<lparr>sess := log_msg message type (sess w)\<rparr>"

text \<open>
  The cookie jar after a response: \<^verbatim>\<open>jar.update(url, setCookies)\<close> when the response has
  \<^verbatim>\<open>set-cookie\<close> headers.
\<close>

definition update_jar :: "string \<Rightarrow> response \<Rightarrow> world \<Rightarrow> world" where
  "update_jar host res w =
    (case res_set_cookie res of
       None \<Rightarrow> w
     | Some hs \<Rightarrow> w\<lparr>sess := (sess w)\<lparr>jar := CookieJar_update host (Multiple hs) (jar (sess w))\<rparr>\<rparr>)"

text \<open>
  \<^verbatim>\<open>HttpEngine.request(url, options, cookieJar)\<close>. The argument \<open>hostname\<close> is
  \<^verbatim>\<open>new URL(url).hostname\<close>, \<open>None\<close> for a string that is not a URL, for which \<^verbatim>\<open>new URL\<close>
  throws. The HTTP/2 attempt is made first; when it fails, this request is tried again over
  undici, and only the failure of that attempt is thrown.
\<close>

definition HttpEngine_request ::
  "(string \<Rightarrow> string option) \<Rightarrow> string \<Rightarrow> string \<Rightarrow> body \<Rightarrow> world \<Rightarrow> (string + response) \<times> world"
where
  "HttpEngine_request hostname uri meth bdy w =
    (case hostname uri of
       None \<Rightarrow> (Inl ''Invalid URL'', w)
     | Some host \<Rightarrow>
        let r = \<lparr>req_method = meth, req_url = uri, req_body = bdy,
                 req_cookie = CookieJar_get host (jar (sess w))\<rparr>
        in case send H2 r w of
             (Replies res, w1) \<Rightarrow> (Inr res, update_jar host res w1)
           | (Fails m, w1) \<Rightarrow>
               (case send Undici r w1 of
                  (Replies res, w2) \<Rightarrow> (Inr res, update_jar host res w2)
                | (Fails m2, w2) \<Rightarrow> (Inl (''HTTP request failed: '' @ m2), w2)))"

text \<open>The node-fetch branch of \<^verbatim>\<open>FastCheckout.request\<close>.\<close>

definition fetch_request ::
  "(string \<Rightarrow> string option) \<Rightarrow> string \<Rightarrow> string \<Rightarrow> body \<Rightarrow> world \<Rightarrow> (string + response) \<times> world"
where
  "fetch_request hostname uri meth bdy w =
    (case hostname uri of
       None \<Rightarrow> (Inl ''Invalid URL'', w)
     | Some host \<Rightarrow>
        let r = \<lparr>req_method = meth, req_url = uri, req_body = bdy,
                 req_cookie = CookieJar_get host (jar (sess w))\<rparr>
        in case send NodeFetch r w of
             (Replies res, w1) \<Rightarrow> (Inr res, update_jar host res w1)
           | (Fails m, w1) \<Rightarrow> (Inl m, w1))"

text \<open>The body of the \<^verbatim>\<open>try\<close> block of \<^verbatim>\<open>FastCheckout.request\<close>: one attempt.\<close>

definition attempt_once ::
  "(string \<Rightarrow> string option) \<Rightarrow> string \<Rightarrow> string \<Rightarrow> body \<Rightarrow> world \<Rightarrow> (string + response) \<times> world"
where
  "attempt_once hostname uri meth bdy w =
    (if truthy_flag (useH2 (sess w)) \<and> \<not> proxyAgent w
     then HttpEngine_request hostname uri meth bdy w
     else fetch_request hostname uri meth bdy w)"

text \<open>
  The loop of \<^verbatim>\<open>FastCheckout.request\<close> from the attempt numbered \<open>attempt\<close> on. A failed first
  attempt while \<^verbatim>\<open>useH2\<close> is set clears \<^verbatim>\<open>useH2\<close> and goes on; the failure of the attempt
  numbered \<open>retries\<close> is thrown; any other failure is logged and, after a pause, followed
  by the next attempt. When the loop ends without a \<^verbatim>\<open>return\<close> or \<^verbatim>\<open>throw\<close> the function
  returns \<^verbatim>\<open>undefined\<close>, here \<open>Inr None\<close>.
\<close>

function request_from ::
  "(string \<Rightarrow> string option) \<Rightarrow> nat \<Rightarrow> nat \<Rightarrow> string \<Rightarrow> string \<Rightarrow> body \<Rightarrow> world
     \<Rightarrow> (string + response option) \<times> world"
where
  "request_from hostname attempt retries uri meth bdy w =
    (if attempt > retries then (Inr None, w)
     else
       case attempt_once hostname uri meth bdy w of
         (Inr res, w1) \<Rightarrow> (Inr (Some res), w1)
       | (Inl err, w1) \<Rightarrow>
           if truthy_flag (useH2 (sess w1)) \<and> attempt = 0 then
             request_from hostname (attempt + 1) retries uri meth bdy
               (log_w (''H2 failed ('' @ err @ ''), falling back to HTTP/1.1'') ''info''
                  (w1\<lparr>sess := (sess w1)\<lparr>useH2 := JBool False\<rparr>\<rparr>))
           else if attempt = retries then (Inl err, w1)
           else
             request_from hostname (attempt + 1) retries uri meth bdy
               (log_w (''Request failed ('' @ err @ ''), retry in ${wait}ms...'') ''error'' w1))"
  by pat_completeness auto
termination
  by (relation "measure (\<lambda>(hostname, attempt, retries, uri, meth, bdy, w). retries + 1 - attempt)")
     auto

declare request_from.simps [simp del]

text \<open>
  \<^verbatim>\<open>this.request(url, options)\<close> with the default of two retries, as every caller uses it.
  With that default the loop never ends without a result (lemma \<open>request_defined\<close>); a
  caller would fail with a TypeError on \<^verbatim>\<open>undefined\<close>.
\<close>

definition request ::
  "(string \<Rightarrow> string option) \<Rightarrow> string \<Rightarrow> string \<Rightarrow> body \<Rightarrow> world \<Rightarrow> (string + response) \<times> world"
where
  "request hostname uri meth bdy w =
    (case request_from hostname 0 2 uri meth bdy w of
       (Inl err, w') \<Rightarrow> (Inl err, w')
     | (Inr None, w') \<Rightarrow> (Inl ''TypeError'', w')
     | (Inr (Some res), w') \<Rightarrow> (Inr res, w'))"


text \<open>The events that a step adds to the trace.\<close>

definition new_events :: "world \<Rightarrow> world \<Rightarrow> event list" where
  "new_events w w' = drop (length (trace w)) (trace w')"

definition extends :: "world \<Rightarrow> world \<Rightarrow> bool" where
  "extends w w' \<longleftrightarrow> prefix (trace w) (trace w') \<and> net w' = net w \<and> proxyAgent w' = proxyAgent w"








section \<open>Stale snapshots\<close>

text \<open>
  C4, as the claim states it, fails: a snapshot whose \<^verbatim>\<open>savedAt\<close> is the number 0 (the
  epoch, decades before the current time) is falsy in the guard
  \<^verbatim>\<open>data.savedAt && ...\<close>, so it is accepted and loaded.
\<close>

theorem restoreSession_stale_counterexample:
  "\<not> (\<forall>now d s t. s_savedAt d = Some t \<and> now - t > FOUR_HOURS \<longrightarrow>
        fst (restoreSession now (Some d) s) = False \<and>
        same_fields (snd (restoreSession now (Some d) s)) s)"
proof
  assume a: "\<forall>now d s t. s_savedAt d = Some t \<and> now - t > FOUR_HOURS \<longrightarrow>
        fst (restoreSession now (Some d) s) = False \<and>
        same_fields (snd (restoreSession now (Some d) s)) s"
  have "s_savedAt (warm_snapshot (Some 0)) = Some 0 \<and> (1793611200000::int) - 0 > FOUR_HOURS"
    by (simp add: warm_snapshot_def FOUR_HOURS_def)
  with a have "fst (restoreSession 1793611200000 (Some (warm_snapshot (Some 0))) fresh_session) = False"
    by blast
  then show False
    by (simp add: restoreSession_def warm_snapshot_def truthy_num_def)
qed

text \<open>
  C4 (amended): for every snapshot whose \<^verbatim>\<open>savedAt\<close> is a non-zero number more than four
  hours (14 400 000 ms) before the current time, \<^verbatim>\<open>restoreSession\<close> returns false and
  leaves every session field (cookie jar, user-agent, fingerprint, authToken,
  paymentGatewayId, checkoutToken, pre-warm state, baseUrl, useH2) as it was; it only
  appends one log entry.
\<close>

theorem restoreSession_stale_rejected:
  assumes "s_savedAt d = Some t" and "t \<noteq> 0" and "now - t > 14400000"
  shows "fst (restoreSession now (Some d) s) = False
    \<and> same_fields (snd (restoreSession now (Some d) s)) s
    \<and> logs (snd (restoreSession now (Some d) s)) =
           logs s @ [(''info'', ''Saved session expired (>4h old). Starting fresh.'')]"
  using assms
  by (simp add: restoreSession_def truthy_num_def FOUR_HOURS_def same_fields_def log_msg_def)

theorem restoreSession_stale_rejected_witness:
  "fst (restoreSession 1793611200000 (Some (warm_snapshot (Some 1793500000000))) fresh_session) = False
   \<and> same_fields
        (snd (restoreSession 1793611200000 (Some (warm_snapshot (Some 1793500000000))) fresh_session))
        fresh_session"
  using restoreSession_stale_rejected [of "warm_snapshot (Some 1793500000000)" 1793500000000
      1793611200000 fresh_session]
  by (simp add: warm_snapshot_def)

section \<open>Snapshots without a usable timestamp\<close>

text \<open>
  C10: the staleness check applies only to a snapshot with a truthy \<^verbatim>\<open>savedAt\<close>. A
  snapshot whose \<^verbatim>\<open>savedAt\<close> is missing, \<^verbatim>\<open>null\<close> or zero is accepted whatever the current
  time is: the call returns true and every field is loaded, in the sense of \<open>loaded\<close>
  (in particular a \<^verbatim>\<open>useH2\<close> that is \<^verbatim>\<open>null\<close> in the snapshot is \<^verbatim>\<open>null\<close> in the session). The
  call returns false exactly when the input is null/undefined or \<^verbatim>\<open>savedAt\<close> is a non-zero
  number more than four hours old, and then no field is loaded.
\<close>

theorem restoreSession_no_timestamp:
  "(s_savedAt d = None \<or> s_savedAt d = Some 0 \<longrightarrow>
      fst (restoreSession now (Some d) s) = True \<and>
      loaded d s (snd (restoreSession now (Some d) s)))
   \<and> (fst (restoreSession now data s) = False \<longleftrightarrow>
        data = None \<or>
        (\<exists>d' t. data = Some d' \<and> s_savedAt d' = Some t \<and> t \<noteq> 0 \<and> now - t > 14400000))
   \<and> (fst (restoreSession now data s) = False \<longrightarrow>
        same_fields (snd (restoreSession now data s)) s)"
proof (intro conjI impI)
  assume a: "s_savedAt d = None \<or> s_savedAt d = Some 0"
  then have t: "\<not> truthy_num (s_savedAt d)" by (auto simp: truthy_num_def)
  then show "fst (restoreSession now (Some d) s) = True" by (simp add: restoreSession_def)
  from t have r: "snd (restoreSession now (Some d) s) =
      log_msg ''Session restored (${age} min old). Cookies, tokens, fingerprint loaded.'' ''success''
        (s\<lparr> jar := (case s_cookies d of None \<Rightarrow> [] | Some c \<Rightarrow> c),
            ua := or_str (s_ua d) (ua s),
            fingerprint := (case s_fingerprint d of None \<Rightarrow> fingerprint s | Some f \<Rightarrow> f),
            authToken := or_null (s_authToken d),
            paymentGatewayId := or_null (s_paymentGatewayId d),
            checkoutToken := or_null (s_checkoutToken d),
            preCheckoutUrl := or_null (s_preCheckoutUrl d),
            preShippingDone := (case s_preShippingDone d of None \<Rightarrow> False | Some b \<Rightarrow> b),
            preShippingRateId := or_null (s_preShippingRateId d),
            prePaymentToken := or_null (s_prePaymentToken d),
            baseUrl := or_null (s_baseUrl d),
            useH2 := (case s_useH2 d of None \<Rightarrow> JBool True | Some v \<Rightarrow> v) \<rparr>)"
    by (simp add: restoreSession_def)
  show "loaded d s (snd (restoreSession now (Some d) s))"
    unfolding r loaded_def
    by (simp add: log_msg_def or_str_def or_null_def truthy_str_def)
next
  show "fst (restoreSession now data s) = False \<longleftrightarrow>
        data = None \<or>
        (\<exists>d' t. data = Some d' \<and> s_savedAt d' = Some t \<and> t \<noteq> 0 \<and> now - t > 14400000)"
    by (cases data)
       (auto simp add: restoreSession_def truthy_num_def FOUR_HOURS_def split: option.splits)
next
  assume "fst (restoreSession now data s) = False"
  then show "same_fields (snd (restoreSession now data s)) s"
    by (cases data)
       (auto simp add: restoreSession_def same_fields_def log_msg_def split: if_splits)
qed

text \<open>
  The theorem at work: a snapshot without a timestamp, one saved at the epoch, one whose
  \<^verbatim>\<open>useH2\<close> is \<^verbatim>\<open>null\<close>, and a missing snapshot. The first is loaded into a fresh instance
  field by field: the fingerprint, which the snapshot lacks, is the instance's own.
\<close>

theorem restoreSession_no_timestamp_witness:
  "restoreSession 1793611200000 (Some (warm_snapshot None)) fresh_session =
     (True,
      \<lparr> jar = [(''shop.example'', [(''cart'', ''abc'')])], ua = ''Mozilla/5.0 (X11)'',
        fingerprint = \<lparr> sec_ch_ua = ''Chromium'', sec_ch_ua_mobile = ''?0'',
                        sec_ch_ua_platform = ''Linux'', accept_encoding = ''gzip'' \<rparr>,
        authToken = Some ''tok-0123456789'', paymentGatewayId = Some ''42'',
        checkoutToken = None, preCheckoutUrl = None, preShippingDone = True,
        preShippingRateId = None, prePaymentToken = None,
        baseUrl = Some ''https://shop.example'', useH2 = JBool False,
        logs = [(''success'',
          ''Session restored (${age} min old). Cookies, tokens, fingerprint loaded.'')] \<rparr>)
   \<and> loaded (warm_snapshot None) fresh_session
        (snd (restoreSession 1793611200000 (Some (warm_snapshot None)) fresh_session))
   \<and> fst (restoreSession 1793611200000 (Some (warm_snapshot (Some 0))) fresh_session) = True
   \<and> useH2 (snd (restoreSession 1793611200000
        (Some ((warm_snapshot None)\<lparr>s_useH2 := Some JNull\<rparr>)) fresh_session)) = JNull
   \<and> useH2 (snd (restoreSession 1793611200000
        (Some ((warm_snapshot None)\<lparr>s_useH2 := None\<rparr>)) fresh_session)) = JBool True
   \<and> fst (restoreSession 1793611200000 None fresh_session) = False"
proof -
  have e: "restoreSession 1793611200000 (Some (warm_snapshot None)) fresh_session =
     (True,
      \<lparr> jar = [(''shop.example'', [(''cart'', ''abc'')])], ua = ''Mozilla/5.0 (X11)'',
        fingerprint = \<lparr> sec_ch_ua = ''Chromium'', sec_ch_ua_mobile = ''?0'',
                        sec_ch_ua_platform = ''Linux'', accept_encoding = ''gzip'' \<rparr>,
        authToken = Some ''tok-0123456789'', paymentGatewayId = Some ''42'',
        checkoutToken = None, preCheckoutUrl = None, preShippingDone = True,
        preShippingRateId = None, prePaymentToken = None,
        baseUrl = Some ''https://shop.example'', useH2 = JBool False,
        logs = [(''success'',
          ''Session restored (${age} min old). Cookies, tokens, fingerprint loaded.'')] \<rparr>)"
    by (simp add: restoreSession_def warm_snapshot_def fresh_session_def truthy_num_def
        log_msg_def or_str_def or_null_def truthy_str_def)
  have n: "useH2 (snd (restoreSession 1793611200000
        (Some ((warm_snapshot None)\<lparr>s_useH2 := Some JNull\<rparr>)) fresh_session)) = JNull"
    "useH2 (snd (restoreSession 1793611200000
        (Some ((warm_snapshot None)\<lparr>s_useH2 := None\<rparr>)) fresh_session)) = JBool True"
    by (simp_all add: restoreSession_def warm_snapshot_def truthy_num_def log_msg_def)
  from restoreSession_no_timestamp [of "warm_snapshot None" 1793611200000 fresh_session None]
    restoreSession_no_timestamp [of "warm_snapshot (Some 0)" 1793611200000 fresh_session None]
    e n
  show ?thesis by (simp add: warm_snapshot_def)
qed

section \<open>Properties of the cookie jar\<close>

lemma set_js_own_entries [simp]: "set (js_own_entries obj) = set obj"
  by (auto simp: js_own_entries_def)

lemma last_value_append:
  "last_value (hs @ [h]) n =
     (case parse_cookie h of
        Some (n', v) \<Rightarrow> if n' = n then Some v else last_value hs n
      | None \<Rightarrow> last_value hs n)"
  by (induction hs) (auto split: option.splits)

lemma distinct_assign: "distinct (map fst obj) \<Longrightarrow> distinct (map fst (assign k v obj))"
  by (simp add: assign_def distinct_update)

lemma map_of_assign:
  "n \<noteq> ''__proto__'' \<Longrightarrow> map_of (assign k v obj) n = (if k = n then Some v else map_of obj n)"
  by (auto simp: assign_def update_conv')

lemma map_of_foldl_set_cookie:
  "n \<noteq> ''__proto__'' \<Longrightarrow>
   map_of (foldl set_cookie c hs) n =
     (case last_value hs n of Some v \<Rightarrow> Some v | None \<Rightarrow> map_of c n)"
  by (induction hs rule: rev_induct)
     (auto simp: last_value_append set_cookie_def map_of_assign split: option.splits)

lemma sublist_join: "x \<in> set xs \<Longrightarrow> sublist x (join sep xs)"
proof (induction sep xs rule: join.induct)
  case (1 sep)
  then show ?case by simp
next
  case (2 sep x')
  then show ?case by simp
next
  case (3 sep x' y ys)
  show ?case
  proof (cases "x = x'")
    case True
    then show ?thesis by simp
  next
    case False
    with 3 have "sublist x (join sep (y # ys))" by simp
    then obtain ps ss where "join sep (y # ys) = ps @ x @ ss"
      by (auto simp: sublist_def)
    then have "join sep (x' # y # ys) = (x' @ sep @ ps) @ x @ ss" by simp
    then show ?thesis unfolding sublist_def by blast
  qed
qed

lemma stored_after_update:
  assumes "map_of store domain \<noteq> None \<or> domain \<notin> set object_prototype_keys"
  shows "\<exists>c. (domain, foldl set_cookie c hs) \<in> set (CookieJar_update domain (Multiple hs) store)"
proof (cases "map_of store domain")
  case None
  with assms have "map_of (CookieJar_update domain (Multiple hs) store) domain = Some (foldl set_cookie [] hs)"
    by (simp add: CookieJar_update_def update_conv')
  then show ?thesis by (blast dest: map_of_SomeD)
next
  case (Some c)
  then have "map_of (CookieJar_update domain (Multiple hs) store) domain = Some (foldl set_cookie c hs)"
    by (simp add: CookieJar_update_def update_conv')
  then show ?thesis by (blast dest: map_of_SomeD)
qed

lemma cookies_for_member:
  assumes "(d, c) \<in> set store" and "domain_match domain d" and "(n, v) \<in> set c"
  shows "(n @ ''='' @ v) \<in> set (cookies_for domain store)"
  using assms by (force simp: cookies_for_def)

text \<open>
  Claim C5, for the last value of each name. Let the headers be stored for host \<open>domain\<close>
  (an own key of the store, or a host name that is not a member of \<^verbatim>\<open>Object.prototype\<close>),
  and let \<open>domain'\<close> be a host that is equal or suffix-related to it. For every cookie name
  \<open>n\<close> other than \<^verbatim>\<open>__proto__\<close> whose last header in the list gives it the value \<open>v\<close>, the
  pair \<^verbatim>\<open>n=v\<close> is one of the pieces that \<^verbatim>\<open>get\<close> joins with \<^verbatim>\<open>; \<close>, so the returned string
  contains it. After \<^verbatim>\<open>clear\<close>, \<^verbatim>\<open>get\<close> returns the empty string for every host.
\<close>

theorem cookie_update_get:
  assumes "domain_match domain' domain"
    and "map_of store domain \<noteq> None \<or> domain \<notin> set object_prototype_keys"
    and "last_value hs n = Some v"
    and "n \<noteq> ''__proto__''"
  shows "(n @ ''='' @ v) \<in> set (cookies_for domain' (CookieJar_update domain (Multiple hs) store))
       \<and> sublist (n @ ''='' @ v) (CookieJar_get domain' (CookieJar_update domain (Multiple hs) store))
       \<and> CookieJar_get domain'' (CookieJar_clear store') = []"
proof -
  obtain c where c: "(domain, foldl set_cookie c hs) \<in> set (CookieJar_update domain (Multiple hs) store)"
    using stored_after_update [OF assms(2)] by blast
  have "map_of (foldl set_cookie c hs) n = Some v"
    using assms(3,4) by (simp add: map_of_foldl_set_cookie)
  then have "(n, v) \<in> set (foldl set_cookie c hs)"
    by (rule map_of_SomeD)
  with c assms(1)
  have m: "(n @ ''='' @ v) \<in> set (cookies_for domain' (CookieJar_update domain (Multiple hs) store))"
    by (rule cookies_for_member)
  then have "sublist (n @ ''='' @ v) (CookieJar_get domain' (CookieJar_update domain (Multiple hs) store))"
    unfolding CookieJar_get_def by (rule sublist_join)
  moreover have "CookieJar_get domain'' (CookieJar_clear store') = []"
    by (simp add: CookieJar_get_def CookieJar_clear_def cookies_for_def js_own_entries_def)
  ultimately show ?thesis using m by simp
qed

text \<open>
  The theorem at work: a sub-domain reads the cookies stored for its parent domain; the
  attributes after \<^verbatim>\<open>;\<close> are dropped and the later value of \<^verbatim>\<open>a\<close> is the one returned.
\<close>

theorem cookie_update_get_witness:
  "CookieJar_get ''www.shop.example''
     (CookieJar_update ''shop.example'' (Multiple [''a=1'', ''b=2; Path=/'', ''a=3'']) []) = ''a=3; b=2''
   \<and> sublist ''a=3'' (CookieJar_get ''www.shop.example''
         (CookieJar_update ''shop.example'' (Multiple [''a=1'', ''b=2; Path=/'', ''a=3'']) []))
   \<and> CookieJar_get ''shop.example'' (CookieJar_clear [(''shop.example'', [(''a'', ''1'')])]) = []"
proof -
  have 1: "domain_match ''www.shop.example'' ''shop.example''" by code_simp
  have 2: "map_of ([] :: cookie_store) ''shop.example'' \<noteq> None
           \<or> ''shop.example'' \<notin> set object_prototype_keys" by code_simp
  have 3: "last_value [''a=1'', ''b=2; Path=/'', ''a=3''] ''a'' = Some ''3''" by code_simp
  have 4: "''a'' \<noteq> ''__proto__''" by simp
  have 5: "CookieJar_get ''www.shop.example''
     (CookieJar_update ''shop.example'' (Multiple [''a=1'', ''b=2; Path=/'', ''a=3'']) []) = ''a=3; b=2''"
    by code_simp
  show ?thesis
    using cookie_update_get [OF 1 2 3 4, of "''shop.example''" "[(''shop.example'', [(''a'', ''1'')])]"] 5
    by simp
qed

text \<open>
  Claim C5 as stated fails for two well-formed headers with the same name: the second
  value replaces the first, and the pair \<^verbatim>\<open>a=1\<close> that was supplied is not in the result.
\<close>

theorem cookie_duplicate_name_counterexample:
  "parse_cookie ''a=1'' = Some (''a'', ''1'') \<and> parse_cookie ''a=2'' = Some (''a'', ''2'')
   \<and> CookieJar_get ''shop.example'' (CookieJar_update ''shop.example'' (Multiple [''a=1'', ''a=2'']) []) = ''a=2''
   \<and> \<not> sublist ''a=1'' (CookieJar_get ''shop.example'' (CookieJar_update ''shop.example'' (Multiple [''a=1'', ''a=2'']) []))"
  by code_simp

section \<open>Properties of the proxy rotation\<close>

lemma takeWhile_stops:
  "\<exists>x \<in> set xs. \<not> P x \<Longrightarrow>
   length (takeWhile P xs) < length xs \<and> \<not> P (xs ! length (takeWhile P xs))"
  by (induction xs) auto

lemma find_pos_less: "find_pos u ps = Some i \<Longrightarrow> i < length ps \<and> url (ps ! i) = u"
  unfolding find_pos_def
  using takeWhile_stops [of ps "\<lambda>p. url p \<noteq> u"]
  by (auto split: if_splits)

lemma map_url_reportBan [simp]: "map url (reportBan t u ps) = map url ps"
  by (auto simp: reportBan_def Let_def map_update list_update_same_conv
      dest!: find_pos_less split: option.splits)

lemma map_url_reportSuccess [simp]: "map url (reportSuccess rnd u ms ps) = map url ps"
  by (auto simp: reportSuccess_def Let_def map_update list_update_same_conv
      dest!: find_pos_less split: option.splits)

lemma find_pos_cong: "map url ps = map url ps' \<Longrightarrow> find_pos u ps = find_pos u ps'"
proof -
  assume a: "map url ps = map url ps'"
  have "length (takeWhile (\<lambda>p. url p \<noteq> u) ps) = length (takeWhile (\<lambda>x. x \<noteq> u) (map url ps))" for ps :: "proxy list"
    by (induction ps) auto
  moreover have "(\<exists>p \<in> set ps. url p = u) \<longleftrightarrow> u \<in> set (map url ps)" for ps :: "proxy list"
    by auto
  ultimately show ?thesis unfolding find_pos_def using a by presburger
qed



lemma hd_sort_key:
  assumes "xs \<noteq> []"
  shows "hd (sort_key f xs) \<in> set xs \<and> (\<forall>y \<in> set xs. f (hd (sort_key f xs)) \<le> f y)"
proof -
  from assms have ne: "sort_key f xs \<noteq> []"
    by (metis length_sort list.size(3) length_0_conv)
  then obtain z zs where z: "sort_key f xs = z # zs" by (cases "sort_key f xs") auto
  have "sorted (map f (sort_key f xs))" by (rule sorted_sort_key)
  with z have "\<forall>y \<in> set (z # zs). f z \<le> f y" by auto
  moreover have "set (z # zs) = set xs" using z by (metis set_sort)
  ultimately show ?thesis using z by auto
qed

lemma aliveList_empty:
  "filter (\<lambda>ip. available now (snd ip)) (enumerate 0 ps) = [] \<longleftrightarrow>
     (\<forall>q \<in> set ps. \<not> available now q)"
proof -
  have "set (map snd (enumerate 0 ps)) = set ps" by simp
  then have "snd ` set (enumerate 0 ps) = set ps" by (simp only: set_map)
  then show ?thesis by (force simp: filter_empty_conv)
qed

lemma getNext_available:
  assumes "\<exists>q \<in> set ps. available now q"
  shows "\<exists>j. j < length ps \<and> available now (ps ! j)
          \<and> getNext now ps =
               (Some (j, (ps ! j)\<lparr>requests := requests (ps ! j) + 1\<rparr>),
                ps[j := (ps ! j)\<lparr>requests := requests (ps ! j) + 1\<rparr>])
          \<and> (\<forall>q \<in> set ps. available now q \<longrightarrow>
                 bans (ps ! j) < bans q
                 \<or> (bans (ps ! j) = bans q \<and> avgLatency (ps ! j) \<le> avgLatency q))"
proof -
  define aliveList where "aliveList = filter (\<lambda>ip. available now (snd ip)) (enumerate 0 ps)"
  define key where "key = (\<lambda>ip :: nat \<times> proxy. (bans (snd ip), avgLatency (snd ip)))"
  define ip where "ip = hd (sort_key key aliveList)"
  from assms have ne: "aliveList \<noteq> []" and ps: "ps \<noteq> []"
    unfolding aliveList_def by (auto simp: aliveList_empty)
  from hd_sort_key [OF ne, of key]
  have mem: "ip \<in> set aliveList" and least: "\<forall>y \<in> set aliveList. key ip \<le> key y"
    unfolding ip_def by auto
  from mem have j: "fst ip < length ps" "ps ! fst ip = snd ip" "available now (snd ip)"
    unfolding aliveList_def by (auto simp: in_set_enumerate_eq)
  have "bans (snd ip) < bans q \<or> (bans (snd ip) = bans q \<and> avgLatency (snd ip) \<le> avgLatency q)"
    if q: "q \<in> set ps" "available now q" for q
  proof -
    from q(1) obtain k where k: "k < length ps" "ps ! k = q" by (auto simp: in_set_conv_nth)
    then have "(k, q) \<in> set aliveList"
      unfolding aliveList_def using q(2) by (auto simp: in_set_enumerate_eq)
    with least have "key ip \<le> key (k, q)" by blast
    then show ?thesis unfolding key_def by auto
  qed
  moreover have "getNext now ps =
      (Some (fst ip, (snd ip)\<lparr>requests := requests (snd ip) + 1\<rparr>),
       ps[fst ip := (snd ip)\<lparr>requests := requests (snd ip) + 1\<rparr>])"
    using ne ps unfolding getNext_def Let_def aliveList_def [symmetric] key_def [symmetric] ip_def [symmetric]
    by simp
  ultimately show ?thesis using j by (intro exI [of _ "fst ip"]) auto
qed

lemma getNext_dark:
  assumes "pool_dark now ps"
  shows "getNext now ps =
     (Some (0, (hd ps)\<lparr>alive := True, bans := 0\<rparr>), map (\<lambda>p. p\<lparr>alive := True, bans := 0\<rparr>) ps)"
  using assms unfolding pool_dark_def getNext_def Let_def
  by (simp add: aliveList_empty hd_map)


lemma map_url_getNext [simp]: "map url (snd (getNext now ps)) = map url ps"
proof (cases "ps = []")
  case True
  then show ?thesis by (simp add: getNext_def)
next
  case ne: False
  show ?thesis
  proof (cases "\<exists>q \<in> set ps. available now q")
    case True
    from getNext_available [OF True] show ?thesis
      by (auto simp: map_update list_update_same_conv)
  next
    case False
    with ne have "pool_dark now ps" by (simp add: pool_dark_def)
    from getNext_dark [OF this] show ?thesis by (simp add: comp_def)
  qed
qed

lemma map_url_apply_op [simp]: "map url (apply_op rnd ps op) = map url ps"
  by (cases op) simp_all

lemma struck_Next:
  assumes "struck i n ps"
  shows "struck i (count_op u ps n (Next now)) (apply_op rnd ps (Next now))"
proof (cases "\<exists>q \<in> set ps. available now q")
  case True
  then have nd: "\<not> pool_dark now ps" by (auto simp: pool_dark_def)
  from getNext_available [OF True] obtain j where
    "snd (getNext now ps) = ps[j := (ps ! j)\<lparr>requests := requests (ps ! j) + 1\<rparr>]" by auto
  with assms nd show ?thesis
    by (cases "i = j") (auto simp: struck_def)
next
  case False
  from assms have "ps \<noteq> []" by (auto simp: struck_def)
  with False have d: "pool_dark now ps" by (simp add: pool_dark_def)
  from getNext_dark [OF d] d assms show ?thesis by (simp add: struck_def)
qed

lemma struck_Ban:
  assumes "find_pos u ps = Some i" and "struck i n ps"
  shows "struck i (count_op u ps n (Ban now u')) (apply_op rnd ps (Ban now u'))"
proof (cases "find_pos u' ps")
  case None
  with assms show ?thesis
    by (auto simp: reportBan_def struck_def)
next
  case (Some k)
  show ?thesis
  proof (cases "u' = u")
    case True
    with Some assms show ?thesis
      by (auto simp: reportBan_def struck_def Let_def)
  next
    case False
    from find_pos_less [OF Some] find_pos_less [OF assms(1)] False have "k \<noteq> i" by auto
    with Some assms False show ?thesis
      by (auto simp: reportBan_def struck_def Let_def)
  qed
qed

lemma struck_Success:
  assumes "struck i n ps"
  shows "struck i (count_op u ps n (Success u' ms)) (apply_op rnd ps (Success u' ms))"
proof (cases "find_pos u' ps")
  case None
  with assms show ?thesis by (simp add: reportSuccess_def)
next
  case (Some k)
  with assms show ?thesis
    by (cases "k = i") (auto simp: reportSuccess_def struck_def Let_def)
qed

lemma struck_step:
  assumes "find_pos u ps = Some i" and "struck i n ps"
  shows "struck i (count_op u ps n op) (apply_op rnd ps op) \<and> find_pos u (apply_op rnd ps op) = Some i"
proof -
  have "find_pos u (apply_op rnd ps op) = find_pos u ps"
    by (rule find_pos_cong) simp
  moreover have "struck i (count_op u ps n op) (apply_op rnd ps op)"
    using assms struck_Next struck_Ban struck_Success by (cases op) blast+
  ultimately show ?thesis using assms(1) by simp
qed

lemma struck_run_ops:
  assumes "find_pos u ps = Some i" and "struck i n ps" and "run_ops rnd u (ps, n) ops = (ps', n')"
  shows "struck i n' ps' \<and> find_pos u ps' = Some i"
  using assms
proof (induction ops arbitrary: ps n)
  case Nil
  then show ?case by simp
next
  case (Cons op ops)
  from struck_step [OF Cons.prems(1,2), of op]
  have "struck i (count_op u ps n op) (apply_op rnd ps op)" "find_pos u (apply_op rnd ps op) = Some i"
    by auto
  moreover from Cons.prems(3)
  have "run_ops rnd u (apply_op rnd ps op, count_op u ps n op) ops = (ps', n')" by simp
  ultimately show ?case using Cons.IH by blast
qed

lemma map_url_run_ops:
  "run_ops rnd u (ps, n) ops = (ps', n') \<Longrightarrow> map url ps' = map url ps"
proof (induction ops arbitrary: ps n)
  case Nil
  then show ?case by simp
next
  case (Cons op ops)
  from Cons.prems have "run_ops rnd u (apply_op rnd ps op, count_op u ps n op) ops = (ps', n')"
    by simp
  from Cons.IH [OF this] show ?case by simp
qed

lemma find_pos_None: "find_pos u ps = None \<longleftrightarrow> u \<notin> set (map url ps)"
  by (auto simp: find_pos_def)

lemma example_run:
  "run_ops (\<lambda>x. x) ''http://a:1'' (example_pool, 0) example_ops = (example_struck, 3)"
  by (simp add: example_pool_def example_ops_def example_struck_def SmartProxyManager_def
      enumerate_eq_zip str_includes_def reportBan_def reportSuccess_def find_pos_def getNext_def
      available_def pool_dark_def Let_def upt_rec sublist_code)

lemma reset_run: "foldl (apply_op (\<lambda>x. x)) example_pool reset_ops = reset_pool"
  by (simp add: example_pool_def reset_ops_def reset_pool_def SmartProxyManager_def
      enumerate_eq_zip str_includes_def reportBan_def find_pos_def getNext_def
      available_def Let_def upt_rec sublist_code)

text \<open>
  In a pool with two entries of the same URL, \<^verbatim>\<open>reportBan\<close> updates the first of them only,
  and \<^verbatim>\<open>getNext\<close> goes on to return the second.
\<close>

lemma twin_pool_example:
  "fst (getNext 1793611205000
          (foldl (apply_op (\<lambda>x. x)) twin_pool
             [Ban 1793611201000 ''http://a:1'', Ban 1793611202000 ''http://a:1'',
              Ban 1793611203000 ''http://a:1'']))
     = Some (1, \<lparr>url = ''http://a:1'', index = 1, bans = 0, lastBan = 0, requests = 1,
                  avgLatency = 0, alive = True\<rparr>)"
  by (simp add: twin_pool_def SmartProxyManager_def
      enumerate_eq_zip str_includes_def reportBan_def find_pos_def getNext_def
      available_def Let_def upt_rec sublist_code)

text \<open>
  Claim C6 as stated fails: the reset of the pool clears the ban counts. After three
  calls of \<^verbatim>\<open>reportBan\<close> for the first proxy and one for the second, \<^verbatim>\<open>getNext\<close> finds no proxy
  available and resets the pool. A minute later both proxies are available, the second
  has no ban, and \<^verbatim>\<open>getNext\<close> returns the first, for which \<^verbatim>\<open>reportBan\<close> has been called three
  times.
\<close>

theorem proxy_ban_reset_counterexample:
  "count_bans ''http://a:1'' reset_ops = 3
   \<and> foldl (apply_op (\<lambda>x. x)) example_pool reset_ops = reset_pool
   \<and> url (reset_pool ! 1) = ''http://b:2'' \<and> bans (reset_pool ! 1) = 0
   \<and> alive (reset_pool ! 1) \<and> available 1793611265000 (reset_pool ! 1)
   \<and> fst (getNext 1793611265000 reset_pool)
       = Some (0, \<lparr>url = ''http://a:1'', index = 0, bans = 0, lastBan = 1793611203000,
                    requests = 1, avgLatency = 0, alive = True\<rparr>)"
proof -
  have "count_bans ''http://a:1'' reset_ops = 3"
    by (simp add: count_bans_def reset_ops_def)
  moreover have "fst (getNext 1793611265000 reset_pool)
       = Some (0, \<lparr>url = ''http://a:1'', index = 0, bans = 0, lastBan = 1793611203000,
                    requests = 1, avgLatency = 0, alive = True\<rparr>)"
    by (simp add: reset_pool_def getNext_def available_def Let_def enumerate_eq_zip upt_rec)
  moreover have "url (reset_pool ! 1) = ''http://b:2'' \<and> bans (reset_pool ! 1) = 0
   \<and> alive (reset_pool ! 1) \<and> available 1793611265000 (reset_pool ! 1)"
    by (simp add: reset_pool_def available_def)
  ultimately show ?thesis using reset_run by simp
qed

text \<open>
  Claim C6 (amended), for every pool state \<open>ps\<close> and every history \<open>ops\<close> of calls of
  \<^verbatim>\<open>getNext\<close>, \<^verbatim>\<open>reportBan\<close> and \<^verbatim>\<open>reportSuccess\<close> on it.

  \<^item> When \<^verbatim>\<open>reportBan\<close> has been called three or more times for the URL \<open>u\<close> since the pool
    was last reset by \<^verbatim>\<open>getNext\<close> (or since \<open>ps\<close>), and some identity of the pool is available
    (alive and not banned in the last 30 seconds), \<^verbatim>\<open>getNext\<close> returns an available
    identity, which is not the entry that \<^verbatim>\<open>reportBan\<close> updates for \<open>u\<close> (the first entry
    with that URL, which is dead); when the URLs of the pool are pairwise distinct, the
    URL of the identity returned is not \<open>u\<close>.
  \<^item> When no identity of a non-empty pool is available, \<^verbatim>\<open>getNext\<close> sets every alive flag,
    clears every ban count and returns the first identity.
  \<^item> Otherwise it returns an available identity that has the fewest bans, and among those
    the lowest average latency, and counts the request.
\<close>

theorem proxy_rotation:
  "(run_ops rnd u (ps, 0) ops = (ps', n) \<and> 3 \<le> n \<and> (\<exists>q \<in> set ps'. available now q)
     \<longrightarrow> (\<exists>j. j < length ps' \<and> available now (ps' ! j)
            \<and> fst (getNext now ps') = Some (j, (ps' ! j)\<lparr>requests := requests (ps' ! j) + 1\<rparr>)
            \<and> (\<forall>i. find_pos u ps = Some i \<longrightarrow> j \<noteq> i \<and> \<not> alive (ps' ! i))
            \<and> (distinct (map url ps) \<longrightarrow> url (ps' ! j) \<noteq> u)))
   \<and> (pool_dark now ps \<longrightarrow>
        getNext now ps =
          (Some (0, (hd ps)\<lparr>alive := True, bans := 0\<rparr>),
           map (\<lambda>p. p\<lparr>alive := True, bans := 0\<rparr>) ps))
   \<and> ((\<exists>q \<in> set ps. available now q) \<longrightarrow>
        (\<exists>j. j < length ps \<and> available now (ps ! j)
          \<and> getNext now ps =
               (Some (j, (ps ! j)\<lparr>requests := requests (ps ! j) + 1\<rparr>),
                ps[j := (ps ! j)\<lparr>requests := requests (ps ! j) + 1\<rparr>])
          \<and> (\<forall>q \<in> set ps. available now q \<longrightarrow>
                 bans (ps ! j) < bans q
                 \<or> (bans (ps ! j) = bans q \<and> avgLatency (ps ! j) \<le> avgLatency q))))"
proof (intro conjI impI)
  assume a: "run_ops rnd u (ps, 0) ops = (ps', n) \<and> 3 \<le> n \<and> (\<exists>q \<in> set ps'. available now q)"
  then have run: "run_ops rnd u (ps, 0) ops = (ps', n)" and n: "3 \<le> n" by auto
  from run have urls: "map url ps' = map url ps" by (rule map_url_run_ops)
  from a getNext_available [of ps' now] obtain j where
    j: "j < length ps'" "available now (ps' ! j)"
       "fst (getNext now ps') = Some (j, (ps' ! j)\<lparr>requests := requests (ps' ! j) + 1\<rparr>)"
    by auto
  have slot: "j \<noteq> i \<and> \<not> alive (ps' ! i) \<and> i < length ps' \<and> url (ps' ! i) = u"
    if i: "find_pos u ps = Some i" for i
  proof -
    from i find_pos_less [of u ps i] have "struck i 0 ps" by (simp add: struck_def)
    from struck_run_ops [OF i this run] have s: "struck i n ps'" and f: "find_pos u ps' = Some i"
      by auto
    from s n have dead: "\<not> alive (ps' ! i)" by (simp add: struck_def)
    with j(2) have "j \<noteq> i" by (auto simp: available_def)
    with dead find_pos_less [OF f] show ?thesis by simp
  qed
  have url: "url (ps' ! j) \<noteq> u" if d: "distinct (map url ps)"
  proof (cases "find_pos u ps")
    case None
    then have "u \<notin> set (map url ps')" by (simp add: find_pos_None urls)
    moreover from j(1) have "url (ps' ! j) \<in> set (map url ps')" by simp
    ultimately show ?thesis by metis
  next
    case (Some i)
    from slot [OF Some] have i: "j \<noteq> i" "i < length ps'" "url (ps' ! i) = u" by auto
    from d urls have "distinct (map url ps')" by simp
    from this i j(1) show ?thesis
      using nth_eq_iff_index_eq [of "map url ps'" j i] by simp
  qed
  from j slot url
  show "\<exists>j. j < length ps' \<and> available now (ps' ! j)
            \<and> fst (getNext now ps') = Some (j, (ps' ! j)\<lparr>requests := requests (ps' ! j) + 1\<rparr>)
            \<and> (\<forall>i. find_pos u ps = Some i \<longrightarrow> j \<noteq> i \<and> \<not> alive (ps' ! i))
            \<and> (distinct (map url ps) \<longrightarrow> url (ps' ! j) \<noteq> u)"
    by blast
next
  assume "pool_dark now ps"
  then show "getNext now ps =
          (Some (0, (hd ps)\<lparr>alive := True, bans := 0\<rparr>),
           map (\<lambda>p. p\<lparr>alive := True, bans := 0\<rparr>) ps)" by (rule getNext_dark)
next
  assume "\<exists>q \<in> set ps. available now q"
  then show "\<exists>j. j < length ps \<and> available now (ps ! j)
          \<and> getNext now ps =
               (Some (j, (ps ! j)\<lparr>requests := requests (ps ! j) + 1\<rparr>),
                ps[j := (ps ! j)\<lparr>requests := requests (ps ! j) + 1\<rparr>])
          \<and> (\<forall>q \<in> set ps. available now q \<longrightarrow>
                 bans (ps ! j) < bans q
                 \<or> (bans (ps ! j) = bans q \<and> avgLatency (ps ! j) \<le> avgLatency q))"
    by (rule getNext_available)
qed

text \<open>
  The theorem at work on a pool of two with distinct URLs: after three bans the first
  proxy is passed over for the second; when the second is banned as well the pool is
  reset and the first is returned.
\<close>

theorem proxy_rotation_witness:
  "find_pos ''http://a:1'' example_pool = Some 0 \<and> distinct (map url example_pool)
   \<and> run_ops (\<lambda>x. x) ''http://a:1'' (example_pool, 0) example_ops = (example_struck, 3)
   \<and> (\<exists>j. fst (getNext 1793611205000 example_struck)
            = Some (j, (example_struck ! j)\<lparr>requests := requests (example_struck ! j) + 1\<rparr>)
          \<and> j \<noteq> 0 \<and> url (example_struck ! j) \<noteq> ''http://a:1'')
   \<and> fst (getNext 1793611205000 example_struck)
       = Some (1, (example_struck ! 1)\<lparr>requests := 2\<rparr>)
   \<and> fst (getNext 1793611205000 (reportBan 1793611204500 ''http://b:2'' example_struck))
       = Some (0, (example_struck ! 0)\<lparr>alive := True, bans := 0\<rparr>)"
proof -
  have 1: "find_pos ''http://a:1'' example_pool = Some 0"
    by (simp add: example_pool_def SmartProxyManager_def enumerate_eq_zip str_includes_def
        find_pos_def upt_rec sublist_code)
  have d: "distinct (map url example_pool)"
    by (simp add: example_pool_def SmartProxyManager_def enumerate_eq_zip str_includes_def
        upt_rec sublist_code)
  have 2: "\<exists>q \<in> set example_struck. available 1793611205000 q"
    by (simp add: example_struck_def available_def)
  have 3: "pool_dark 1793611205000 (reportBan 1793611204500 ''http://b:2'' example_struck)"
    by (simp add: example_struck_def available_def pool_dark_def reportBan_def find_pos_def Let_def)
  have 4: "fst (getNext 1793611205000 example_struck)
       = Some (1, (example_struck ! 1)\<lparr>requests := 2\<rparr>)"
    by (simp add: example_struck_def getNext_def available_def Let_def enumerate_eq_zip upt_rec)
  have 5: "hd (reportBan 1793611204500 ''http://b:2'' example_struck) = example_struck ! 0"
    by (simp add: example_struck_def reportBan_def find_pos_def Let_def)
  have 6: "\<exists>j. fst (getNext 1793611205000 example_struck)
            = Some (j, (example_struck ! j)\<lparr>requests := requests (example_struck ! j) + 1\<rparr>)
          \<and> j \<noteq> 0 \<and> url (example_struck ! j) \<noteq> ''http://a:1''"
    using proxy_rotation [of "\<lambda>x. x" "''http://a:1''" example_pool example_ops example_struck 3
      1793611205000] 1 d 2 example_run
    by auto
  have 7: "fst (getNext 1793611205000 (reportBan 1793611204500 ''http://b:2'' example_struck))
       = Some (0, (example_struck ! 0)\<lparr>alive := True, bans := 0\<rparr>)"
    using proxy_rotation [of _ _ "reportBan 1793611204500 ''http://b:2'' example_struck" _ _ _
      1793611205000] 3 5
    by simp
  from 1 d example_run 4 6 7 show ?thesis by simp
qed

section \<open>Properties of address jigging\<close>


lemma toUpperCase_Nil [simp]: "toUpperCase s = [] \<longleftrightarrow> s = []"
  by (simp add: toUpperCase_def)

lemma toLowerCase_Nil [simp]: "toLowerCase s = [] \<longleftrightarrow> s = []"
  by (simp add: toLowerCase_def)

lemma charAt0_Nil [simp]: "charAt0 s = [] \<longleftrightarrow> s = []"
  by (cases s) (simp_all add: charAt0_def)

lemma normalized_Nil [simp]: "normalized s = [] \<longleftrightarrow> s = []"
  by (cases s) (simp_all add: normalized_def)







lemma upper_char_letter: "is_lower c \<Longrightarrow> is_upper (upper_char c)"
proof -
  assume "is_lower c"
  then obtain u where u: "map_of (zip lower_letters upper_letters) c = Some u"
    using map_of_zip_is_Some [of lower_letters upper_letters c]
    by (auto simp: is_lower_def lower_letters_def upper_letters_def)
  then have "u \<in> set upper_letters" by (auto dest!: map_of_SomeD set_zip_rightD)
  with u show ?thesis by (simp add: upper_char_def is_upper_def)
qed

lemma lower_char_letter: "is_upper c \<Longrightarrow> is_lower (lower_char c)"
proof -
  assume "is_upper c"
  then obtain l where l: "map_of (zip upper_letters lower_letters) c = Some l"
    using map_of_zip_is_Some [of upper_letters lower_letters c]
    by (auto simp: is_upper_def lower_letters_def upper_letters_def)
  then have "l \<in> set lower_letters" by (auto dest!: map_of_SomeD set_zip_rightD)
  with l show ?thesis by (simp add: lower_char_def is_lower_def)
qed

lemma upper_char_other: "\<not> is_lower c \<Longrightarrow> upper_char c = c"
proof -
  assume "\<not> is_lower c"
  then have "map_of (zip lower_letters upper_letters) c = None"
    using map_of_zip_is_None [of lower_letters upper_letters c]
    by (simp add: is_lower_def lower_letters_def upper_letters_def)
  then show ?thesis by (simp add: upper_char_def)
qed

lemma lower_char_other: "\<not> is_upper c \<Longrightarrow> lower_char c = c"
proof -
  assume "\<not> is_upper c"
  then have "map_of (zip upper_letters lower_letters) c = None"
    using map_of_zip_is_None [of upper_letters lower_letters c]
    by (simp add: is_upper_def lower_letters_def upper_letters_def)
  then show ?thesis by (simp add: lower_char_def)
qed

lemma dot_or_comma_upper [simp]: "dot_or_comma (upper_char c) \<longleftrightarrow> dot_or_comma c"
proof (cases "is_lower c")
  case True
  then have "is_upper (upper_char c)" by (rule upper_char_letter)
  then have "\<not> dot_or_comma (upper_char c)"
    by (auto simp: is_upper_def upper_letters_def dot_or_comma_def)
  moreover from True have "\<not> dot_or_comma c"
    by (auto simp: is_lower_def lower_letters_def dot_or_comma_def)
  ultimately show ?thesis by simp
next
  case False
  then show ?thesis by (simp add: upper_char_other)
qed

lemma dot_or_comma_lower [simp]: "dot_or_comma (lower_char c) \<longleftrightarrow> dot_or_comma c"
proof (cases "is_upper c")
  case True
  then have "is_lower (lower_char c)" by (rule lower_char_letter)
  then have "\<not> dot_or_comma (lower_char c)"
    by (auto simp: is_lower_def lower_letters_def dot_or_comma_def)
  moreover from True have "\<not> dot_or_comma c"
    by (auto simp: is_upper_def upper_letters_def dot_or_comma_def)
  ultimately show ?thesis by simp
next
  case False
  then show ?thesis by (simp add: lower_char_other)
qed

lemma has_body_upper [simp]: "has_body (toUpperCase s) \<longleftrightarrow> has_body s"
  by (simp add: has_body_def toUpperCase_def)

lemma has_body_lower [simp]: "has_body (toLowerCase s) \<longleftrightarrow> has_body s"
  by (simp add: has_body_def toLowerCase_def)



















lemma case_variation_body [simp]:
  "case_variation seed s = [] \<longleftrightarrow> s = []" "has_body (case_variation seed s) \<longleftrightarrow> has_body s"
  by (simp_all add: case_variation_def)



lemma close_gap_nonempty [simp]: "close_gap s = [] \<longleftrightarrow> s = []"
  by (cases s) (simp_all add: Let_def)

lemma open_gap_nonempty [simp]: "open_gap s = [] \<longleftrightarrow> s = []"
  by (cases s rule: open_gap.cases) simp_all

























text \<open>
  The hypothesis on the words of the address is needed: the word \<^verbatim>\<open>Constructor\<close> finds
  \<^verbatim>\<open>Object.prototype.constructor\<close> in \<^verbatim>\<open>STREET_TYPES\<close>, and no address is returned.
\<close>

lemma jig_throws_example:
  "jig (small\<lparr>address := Some ''1 Constructor Way''\<rparr>) 1 = Inl ''TypeError''"
  by code_simp




section \<open>Properties of the request operation\<close>


lemma update_jar_keeps [simp]:
  "useH2 (sess (update_jar host res w)) = useH2 (sess w)"
  "trace (update_jar host res w) = trace w"
  "net (update_jar host res w) = net w"
  "proxyAgent (update_jar host res w) = proxyAgent w"
  by (simp_all add: update_jar_def split: option.splits)

lemma log_w_keeps [simp]:
  "useH2 (sess (log_w m t w)) = useH2 (sess w)"
  "trace (log_w m t w) = trace w"
  "net (log_w m t w) = net w"
  "proxyAgent (log_w m t w) = proxyAgent w"
  by (simp_all add: log_w_def log_msg_def)



lemma request_defined:
  assumes "attempt \<le> retries" and "attempt = 0 \<longrightarrow> 1 \<le> retries"
  shows "fst (request_from hostname attempt retries uri meth bdy w) \<noteq> Inr None"
  using assms
proof (induction hostname attempt retries uri meth bdy w rule: request_from.induct)
  case (1 hostname attempt retries uri meth bdy w)
  obtain y w1 where a: "attempt_once hostname uri meth bdy w = (y, w1)"
    by (cases "attempt_once hostname uri meth bdy w")
  from "1.prems" have le: "\<not> attempt > retries" by simp
  show ?case
  proof (cases y)
    case (Inr res)
    show ?thesis
      by (subst request_from.simps) (use a Inr le in \<open>simp\<close>)
  next
    case (Inl err)
    show ?thesis
    proof (cases "truthy_flag (useH2 (sess w1)) \<and> attempt = 0")
      case True
      from "1.IH"(1) [OF le a [symmetric] Inl True] "1.prems" True
      have "fst (request_from hostname (attempt + 1) retries uri meth bdy
               (log_w (''H2 failed ('' @ err @ ''), falling back to HTTP/1.1'') ''info''
                  (w1\<lparr>sess := (sess w1)\<lparr>useH2 := JBool False\<rparr>\<rparr>))) \<noteq> Inr None"
        by simp
      then show ?thesis
        by (subst request_from.simps) (use a Inl le True in \<open>simp\<close>)
    next
      case nt: False
      show ?thesis
      proof (cases "attempt = retries")
        case True
        show ?thesis
          by (subst request_from.simps) (use a Inl le nt True in \<open>auto\<close>)
      next
        case False
        from "1.IH"(2) [OF le a [symmetric] Inl nt False] "1.prems" False
        have "fst (request_from hostname (attempt + 1) retries uri meth bdy
               (log_w (''Request failed ('' @ err @ ''), retry in ${wait}ms...'') ''error'' w1))
               \<noteq> Inr None"
          by simp
        then show ?thesis
          by (subst request_from.simps) (use a Inl le nt False in \<open>auto\<close>)
      qed
    qed
  qed
qed










end
